theory Spec2Isabelle
  imports Main "HOL-Library.Word"
begin

section \<open>The journal events of the metadata server (mds/journal.cc)\<close>

text \<open>
  Every journal event implements \<open>has_expired\<close>, \<open>expire\<close> and \<open>replay\<close> against the
  running MDS. The file journal.cc holds these three methods for each event class; the
  classes it calls into (MDCache, CDir, CInode, ClientMap, IdAlloc, AnchorTable,
  AnchorClient, MDLog, Migrator, Server, C_Gather) are declared elsewhere.

  \<^item> \<open>has_expired\<close> and \<open>expire\<close> only read the MDS through getters. The MDS they see is
    a record holding the result of every getter journal.cc calls (a lookup is a field of
    function type); \<open>CDir*\<close> and \<open>CInode*\<close> are addresses into a store.
  \<^item> What \<open>expire\<close> hands to the other subsystems (commits, waiters) is returned as the
    list of calls made, in program order.
  \<^item> \<open>replay\<close> mutates the cache through methods that are not in journal.cc; they are
    taken as parameters over an opaque cache state.
  \<^item> \<open>assert(0)\<close> and a failed \<open>assert\<close> are the error value \<open>Abort\<close>.
  \<^item> The \<open>dout\<close> lines only print and are left out.
\<close>

subsection \<open>Basic types\<close>

datatype error = Abort

text \<open>
  \<open>version_t\<close> and \<open>inodeno_t\<close> are unsigned 64-bit integers and \<open>off_t\<close> is signed. The
  code only compares them, takes a maximum, and computes \<open>table_version - 1\<close> in a branch
  where \<open>table_version\<close> is greater than another version, hence nonzero; nothing wraps.
\<close>

type_synonym version_t = nat
type_synonym inodeno_t = nat
type_synonym frag_t = nat
type_synonym idno_t = nat
type_synonym off_t = int
type_synonym metareqid_t = nat

record dirfrag_t =
  ino :: inodeno_t
  frag :: frag_t

record inode_t =
  ino :: inodeno_t
  mode :: nat

text \<open>
  A completion (\<open>Context*\<close>): a caller's, or the sub-completion a gather hands out. A
  sub refers back to its gather, named here by the gather's target, and has a number.
\<close>

datatype Context = Completion nat | C_GatherSub Context nat

subsection \<open>The MDS as the getters of journal.cc see it\<close>

text \<open>
  \<open>get_dirfrag\<close> and \<open>get_inode\<close> return \<open>None\<close> for a null pointer.
  \<open>get_subtree_root\<close> always returns a dir, which journal.cc dereferences unchecked.
  \<open>cdir\<close> and \<open>cinode\<close> are the store: what a pointer points to.
\<close>

type_synonym CDir_ptr = nat
type_synonym CInode_ptr = nat

record CDir =
  authority :: "int \<times> int"
  get_committed_version :: version_t
  is_ambiguous_dir_auth :: bool
  is_exporting :: bool
  can_auth_pin :: bool

record CInode =
  is_any_caps :: bool
  last_open_journaled :: off_t

record MDCache =
  get_dirfrag :: "dirfrag_t \<Rightarrow> CDir_ptr option"
  get_inode :: "inodeno_t \<Rightarrow> CInode_ptr option"
  get_subtree_root :: "CDir_ptr \<Rightarrow> CDir_ptr"
  is_purging :: "inodeno_t \<Rightarrow> off_t \<Rightarrow> bool"
  migrator_is_exporting :: "CDir_ptr \<Rightarrow> bool"
  cdir :: "CDir_ptr \<Rightarrow> CDir"
  cinode :: "CInode_ptr \<Rightarrow> CInode"

record ClientMap =
  get_committed :: version_t
  get_committing :: version_t
  have_completed_request :: "metareqid_t \<Rightarrow> bool"

record MDLog =
  last_import_map :: off_t
  is_capped :: bool

record MDS =
  get_nodeid :: int
  mdcache :: MDCache
  anchorclient_has_committed :: "version_t \<Rightarrow> bool"
  clientmap :: ClientMap
  idalloc_committed_version :: version_t
  anchortable_committed_version :: version_t
  mdlog :: MDLog

subsection \<open>The events\<close>

text \<open>
  The three kinds of entries of a lump, and the lump. Its bit lists are kept decoded:
  \<open>_decode_bits\<close> turns the encoded buffer into these lists and changes nothing else.
\<close>

record fullbit =
  dn :: string
  dnv :: version_t
  inode :: inode_t
  symlink :: string
  dirty :: bool

record remotebit =
  dn :: string
  dnv :: version_t
  ino :: inodeno_t
  dirty :: bool

record nullbit =
  dn :: string
  dnv :: version_t
  dirty :: bool

record dirlump =
  dirv :: version_t
  is_dirty :: bool
  is_complete :: bool
  dfull :: "fullbit list"
  dremote :: "remotebit list"
  dnull :: "nullbit list"

text \<open>
  \<open>lump_map\<close> is a \<open>std::map\<close>: the list of its entries in iteration order.
\<close>

record EMetaBlob =
  lump_order :: "dirfrag_t list"
  lump_map :: "(dirfrag_t \<times> dirlump) list"
  atids :: "version_t list"
  truncated_inodes :: "(inode_t \<times> off_t) list"
  client_reqs :: "metareqid_t list"

datatype ealloc_what = EALLOC_EV_ALLOC | EALLOC_EV_FREE | EALLOC_EV_other int

datatype slave_op = OP_PREPARE | OP_COMMIT | OP_ABORT | OP_other int

text \<open>
  One constructor per event class, with the members that \<open>has_expired\<close> and \<open>expire\<close>
  read, and for \<open>EAlloc\<close> and \<open>ESlaveUpdate\<close> those that \<open>replay\<close> reads. An
  event's start and end offsets in the log (\<open>get_start_off\<close>, \<open>get_end_off\<close>) are
  members too.
\<close>

datatype LogEvent =
    EString (event: string)
  | EMetaBlobEv (metablob: EMetaBlob)
  | EClientMap (cmapv: version_t)
  | ESession (cmapv: version_t)
  | EAlloc (what: ealloc_what) (ev_id: idno_t) (table_version: version_t)
  | EAnchor (ev_version: version_t)
  | EAnchorClient (atid: version_t)
  | EUpdate (metablob: EMetaBlob)
  | EOpen (metablob: EMetaBlob) (inos: "inodeno_t list") (get_start_off: off_t)
  | ESlaveUpdate (metablob: EMetaBlob) (ev_op: slave_op) (reqid: metareqid_t)
  | EImportMap (metablob: EMetaBlob) (ev_imports: "dirfrag_t list") (get_end_off: off_t)
  | EPurgeFinish (purge_ino: inodeno_t) (newsize: off_t)
  | EExport (metablob: EMetaBlob) (base: dirfrag_t) (bounds: "dirfrag_t list")
  | EImportStart (metablob: EMetaBlob) (base: dirfrag_t) (bounds: "dirfrag_t list")
  | EImportFinish (base: dirfrag_t) (success: bool)

subsection \<open>has_expired\<close>

text \<open>
  The loop of \<open>EMetaBlob::has_expired\<close> over \<open>lump_map\<close>. \<open>Inr True\<close> is the loop running
  to its end, \<open>Inr False\<close> a \<open>return false\<close> from inside it.
\<close>

fun has_expired_lumps :: "MDS \<Rightarrow> (dirfrag_t \<times> dirlump) list \<Rightarrow> error + bool" where
  "has_expired_lumps mds [] = Inr True"
| "has_expired_lumps mds ((df, lump) # lps) =
     (case get_dirfrag (mdcache mds) df of
        None \<Rightarrow> has_expired_lumps mds lps
      | Some dir \<Rightarrow>
          if fst (authority (cdir (mdcache mds) dir)) \<noteq> get_nodeid mds then
            has_expired_lumps mds lps
          else if get_committed_version (cdir (mdcache mds) dir) \<ge> dirv lump then
            has_expired_lumps mds lps
          else if is_ambiguous_dir_auth (cdir (mdcache mds) dir) then
            (if is_exporting (cdir (mdcache mds) (get_subtree_root (mdcache mds) dir))
             then Inr False
             else Inr False)
          else if get_committed_version (cdir (mdcache mds) dir) < dirv lump then
            Inr False
          else Inl Abort)"

definition EMetaBlob_has_expired :: "MDS \<Rightarrow> EMetaBlob \<Rightarrow> error + bool" where
  "EMetaBlob_has_expired mds b =
     (case has_expired_lumps mds (lump_map b) of
        Inl e \<Rightarrow> Inl e
      | Inr False \<Rightarrow> Inr False
      | Inr True \<Rightarrow>
          if list_ex (\<lambda>p. \<not> anchorclient_has_committed mds p) (atids b) then Inr False
          else if list_ex (\<lambda>p. is_purging (mdcache mds) (inode_t.ino (fst p)) (snd p))
                    (truncated_inodes b) then Inr False
          else if list_ex (\<lambda>p. have_completed_request (clientmap mds) p) (client_reqs b)
            then Inr False
          else Inr True)"

definition EOpen_has_expired :: "MDS \<Rightarrow> inodeno_t list \<Rightarrow> off_t \<Rightarrow> bool" where
  "EOpen_has_expired mds ins start_off =
     (\<not> list_ex (\<lambda>p. case get_inode (mdcache mds) p of
                       None \<Rightarrow> False
                     | Some i \<Rightarrow>
                         is_any_caps (cinode (mdcache mds) i) \<and>
                         \<not> (last_open_journaled (cinode (mdcache mds) i) > start_off \<or>
                            last_open_journaled (cinode (mdcache mds) i) = 0)) ins)"

definition EImportMap_has_expired :: "MDS \<Rightarrow> off_t \<Rightarrow> bool" where
  "EImportMap_has_expired mds end_off =
     (if last_import_map (mdlog mds) > end_off then True
      else if is_capped (mdlog mds) then True
      else False)"

definition EClientMap_has_expired :: "MDS \<Rightarrow> version_t \<Rightarrow> bool" where
  "EClientMap_has_expired mds v =
     (if get_committed (clientmap mds) \<ge> v then True
      else if get_committing (clientmap mds) \<ge> v then False
      else False)"

definition ESession_has_expired :: "MDS \<Rightarrow> version_t \<Rightarrow> bool" where
  "ESession_has_expired mds v =
     (if get_committed (clientmap mds) \<ge> v then True
      else if get_committing (clientmap mds) \<ge> v then False
      else False)"

fun has_expired :: "MDS \<Rightarrow> LogEvent \<Rightarrow> error + bool" where
  "has_expired mds (EString ev) = Inr True"
| "has_expired mds (EMetaBlobEv b) = EMetaBlob_has_expired mds b"
| "has_expired mds (EClientMap v) = Inr (EClientMap_has_expired mds v)"
| "has_expired mds (ESession v) = Inr (ESession_has_expired mds v)"
| "has_expired mds (EAlloc w i tv) =
     (let cv = idalloc_committed_version mds in
      if cv < tv then Inr False else Inr True)"
| "has_expired mds (EAnchor v) =
     (let cv = anchortable_committed_version mds in
      if cv < v then Inr False else Inr True)"
| "has_expired mds (EAnchorClient a) = Inr True"
| "has_expired mds (EUpdate b) = EMetaBlob_has_expired mds b"
| "has_expired mds (EOpen b ins start_off) = Inr (EOpen_has_expired mds ins start_off)"
| "has_expired mds (ESlaveUpdate b opc r) = EMetaBlob_has_expired mds b"
| "has_expired mds (EImportMap b imps end_off) = Inr (EImportMap_has_expired mds end_off)"
| "has_expired mds (EPurgeFinish i n) = Inr True"
| "has_expired mds (EExport b bs bnds) =
     (case get_dirfrag (mdcache mds) bs of
        None \<Rightarrow> Inr True
      | Some dir \<Rightarrow>
          if \<not> migrator_is_exporting (mdcache mds) dir then Inr True else Inr False)"
| "has_expired mds (EImportStart b bs bnds) = EMetaBlob_has_expired mds b"
| "has_expired mds (EImportFinish bs s) = Inr True"

subsection \<open>The gather\<close>

text \<open>
  Modelled from the spec: \<open>C_Gather\<close> (include/Context.h is not part of the sources).
  A gather wraps a target completion. \<open>new_sub\<close> hands out a fresh sub-completion and
  increments a pending counter. Each sub, when fired, decrements the counter; when it
  reaches zero, the target completion fires exactly once. Construction is safe even if
  zero subs are ever created, in which case the target fires during the creator's next
  pump: if no dependencies are registered, the gather fires immediately.

  \<open>num\<close> counts the subs handed out and numbers the next one; \<open>fired\<close> records that the
  target has fired. A sub fires once, so \<open>sub_finish\<close> with nothing pending does nothing.
  \<open>pump\<close> is the creator's next pump, the first turn of the event loop after the method
  that made the gather has returned.
\<close>

record C_Gather =
  onfinish :: Context
  num :: nat
  pending :: nat
  fired :: bool

definition C_Gather_new :: "Context \<Rightarrow> C_Gather" where
  "C_Gather_new c = \<lparr>onfinish = c, num = 0, pending = 0, fired = False\<rparr>"

definition new_sub :: "C_Gather \<Rightarrow> Context \<times> C_Gather" where
  "new_sub g =
     (C_GatherSub (onfinish g) (Suc (num g)),
      g\<lparr>num := Suc (num g), pending := Suc (pending g)\<rparr>)"

text \<open>One sub fires: the completions fired by it, and the gather afterwards.\<close>

definition sub_finish :: "C_Gather \<Rightarrow> Context list \<times> C_Gather" where
  "sub_finish g =
     (if pending g = 0 then ([], g)
      else if pending g - 1 = 0 then
        (if fired g then [] else [onfinish g], g\<lparr>pending := pending g - 1, fired := True\<rparr>)
      else ([], g\<lparr>pending := pending g - 1\<rparr>))"

definition pump :: "C_Gather \<Rightarrow> Context list \<times> C_Gather" where
  "pump g =
     (if num g = 0 \<and> \<not> fired g then ([onfinish g], g\<lparr>fired := True\<rparr>)
      else ([], g))"

text \<open>
  What happens to a gather after its creator has returned: the event loop pumps, and
  subs fire. \<open>run_gather\<close> runs such steps in order and collects the completions fired.
\<close>

datatype gather_step = Pump | SubFires

fun do_step :: "gather_step \<Rightarrow> C_Gather \<Rightarrow> Context list \<times> C_Gather" where
  "do_step Pump g = pump g"
| "do_step SubFires g = sub_finish g"

fun run_gather :: "gather_step list \<Rightarrow> C_Gather \<Rightarrow> Context list \<times> C_Gather" where
  "run_gather [] g = ([], g)"
| "run_gather (st # sts) g =
     (case do_step st g of (f1, g1) \<Rightarrow>
        (case run_gather sts g1 of (f2, g2) \<Rightarrow> (f1 @ f2, g2)))"

subsection \<open>expire\<close>

datatype waiter_tag = WAIT_AUTHPINNABLE | WAIT_IMPORTED

text \<open>The calls \<open>expire\<close> makes into the other subsystems.\<close>

datatype call =
    CDir_commit CDir_ptr version_t Context
  | CDir_add_waiter CDir_ptr waiter_tag Context
  | Migrator_add_export_finish_waiter CDir_ptr Context
  | AnchorClient_wait_for_ack version_t Context
  | MDCache_wait_for_purge inodeno_t off_t Context
  | ClientMap_add_trim_waiter metareqid_t Context
  | ClientMap_add_commit_waiter Context
  | MDS_log_clientmap Context
  | IdAlloc_save Context version_t
  | AnchorTable_save Context
  | Server_queue_journal_open CInode_ptr
  | Server_add_journal_open_waiter Context
  | Server_maybe_journal_opens
  | MDLog_import_map_expire_waiters_push_back Context

text \<open>
  \<open>commit\<close> is a \<open>std::map<CDir*,version_t>\<close>: its entries in ascending order of the
  key. \<open>commit[dir]\<close> on a missing key reads 0.
\<close>

definition commit_get :: "(CDir_ptr \<times> version_t) list \<Rightarrow> CDir_ptr \<Rightarrow> version_t" where
  "commit_get m k = (case map_of m k of None \<Rightarrow> 0 | Some v \<Rightarrow> v)"

fun commit_set :: "CDir_ptr \<Rightarrow> version_t \<Rightarrow> (CDir_ptr \<times> version_t) list
    \<Rightarrow> (CDir_ptr \<times> version_t) list" where
  "commit_set k v [] = [(k, v)]"
| "commit_set k v ((k', v') # m) =
     (if k = k' then (k, v) # m
      else if k < k' then (k, v) # (k', v') # m
      else (k', v') # commit_set k v m)"

record expire_scan =
  commit :: "(CDir_ptr \<times> version_t) list"
  waitfor_export :: "CDir_ptr list"
  waitfor_import :: "CDir_ptr list"
  ncommit :: int

text \<open>The first loop of \<open>EMetaBlob::expire\<close>, over \<open>lump_map\<close>.\<close>

fun expire_lumps :: "MDS \<Rightarrow> (dirfrag_t \<times> dirlump) list \<Rightarrow> expire_scan
    \<Rightarrow> error + expire_scan" where
  "expire_lumps mds [] sc = Inr sc"
| "expire_lumps mds ((df, lump) # lps) sc =
     (case get_dirfrag (mdcache mds) df of
        None \<Rightarrow> expire_lumps mds lps sc
      | Some dir \<Rightarrow>
          if fst (authority (cdir (mdcache mds) dir)) \<noteq> get_nodeid mds then
            expire_lumps mds lps sc
          else if get_committed_version (cdir (mdcache mds) dir) \<ge> dirv lump then
            expire_lumps mds lps sc
          else if is_ambiguous_dir_auth (cdir (mdcache mds) dir) then
            (if is_exporting (cdir (mdcache mds) (get_subtree_root (mdcache mds) dir))
             then expire_lumps mds lps
                    (sc\<lparr>waitfor_export :=
                          waitfor_export sc @ [get_subtree_root (mdcache mds) dir]\<rparr>)
             else expire_lumps mds lps
                    (sc\<lparr>waitfor_import :=
                          waitfor_import sc @ [get_subtree_root (mdcache mds) dir]\<rparr>))
          else if get_committed_version (cdir (mdcache mds) dir) < dirv lump then
            expire_lumps mds lps
              (sc\<lparr>commit := commit_set dir (max (commit_get (commit sc) dir) (dirv lump))
                               (commit sc),
                   ncommit := ncommit sc + 1\<rparr>)
          else Inl Abort)"

text \<open>
  Each of the remaining loops makes one call per entry, with a fresh sub of the gather.
  \<open>expire_calls\<close> lists these calls in program order, each still lacking its
  completion; \<open>register\<close> makes them one by one, with \<open>gather->new_sub()\<close>.
\<close>

fun register :: "(Context \<Rightarrow> call) list \<Rightarrow> C_Gather \<Rightarrow> call list \<times> C_Gather" where
  "register [] g = ([], g)"
| "register (f # fs) g =
     (case new_sub g of (sub, g1) \<Rightarrow>
        (case register fs g1 of (cs, g2) \<Rightarrow> (f sub # cs, g2)))"

definition expire_calls :: "MDS \<Rightarrow> EMetaBlob \<Rightarrow> expire_scan \<Rightarrow> (Context \<Rightarrow> call) list" where
  "expire_calls mds b sc =
     map (\<lambda>(dir, v). if can_auth_pin (cdir (mdcache mds) dir)
                      then CDir_commit dir v
                      else CDir_add_waiter dir WAIT_AUTHPINNABLE) (commit sc)
     @ map Migrator_add_export_finish_waiter (waitfor_export sc)
     @ map (\<lambda>dir. CDir_add_waiter dir WAIT_IMPORTED) (waitfor_import sc)
     @ map AnchorClient_wait_for_ack
         (filter (\<lambda>p. \<not> anchorclient_has_committed mds p) (atids b))
     @ map (\<lambda>p. MDCache_wait_for_purge (inode_t.ino (fst p)) (snd p))
         (filter (\<lambda>p. is_purging (mdcache mds) (inode_t.ino (fst p)) (snd p))
            (truncated_inodes b))
     @ map ClientMap_add_trim_waiter
         (filter (\<lambda>p. have_completed_request (clientmap mds) p) (client_reqs b))"

definition EMetaBlob_expire :: "MDS \<Rightarrow> EMetaBlob \<Rightarrow> Context
    \<Rightarrow> error + (call list \<times> C_Gather)" where
  "EMetaBlob_expire mds b c =
     (case expire_lumps mds (lump_map b)
             \<lparr>commit = [], waitfor_export = [], waitfor_import = [], ncommit = 0\<rparr> of
        Inl e \<Rightarrow> Inl e
      | Inr sc \<Rightarrow> Inr (register (expire_calls mds b sc) (C_Gather_new c)))"

definition EClientMap_expire :: "MDS \<Rightarrow> version_t \<Rightarrow> Context \<Rightarrow> error + call list" where
  "EClientMap_expire mds v c =
     (if get_committing (clientmap mds) \<ge> v then
        (if get_committing (clientmap mds) > get_committed (clientmap mds)
         then Inr [ClientMap_add_commit_waiter c]
         else Inl Abort)
      else Inr [MDS_log_clientmap c])"

definition ESession_expire :: "MDS \<Rightarrow> version_t \<Rightarrow> Context \<Rightarrow> error + call list" where
  "ESession_expire mds v c =
     (if get_committing (clientmap mds) \<ge> v then
        (if get_committing (clientmap mds) > get_committed (clientmap mds)
         then Inr [ClientMap_add_commit_waiter c]
         else Inl Abort)
      else Inr [MDS_log_clientmap c])"

definition EOpen_expire :: "MDS \<Rightarrow> inodeno_t list \<Rightarrow> Context \<Rightarrow> error + call list" where
  "EOpen_expire mds ins c =
     (if is_capped (mdlog mds) then Inl Abort
      else Inr (concat (map (\<lambda>p. case get_inode (mdcache mds) p of
                                  None \<Rightarrow> []
                                | Some i \<Rightarrow>
                                    if \<not> is_any_caps (cinode (mdcache mds) i) then []
                                    else [Server_queue_journal_open i]) ins)
                @ [Server_add_journal_open_waiter c, Server_maybe_journal_opens]))"

text \<open>The calls of an embedded blob's \<open>expire\<close>, without the gather.\<close>

definition metablob_expire :: "MDS \<Rightarrow> EMetaBlob \<Rightarrow> Context \<Rightarrow> error + call list" where
  "metablob_expire mds b c =
     (case EMetaBlob_expire mds b c of Inl e \<Rightarrow> Inl e | Inr (cs, g) \<Rightarrow> Inr cs)"

fun expire :: "MDS \<Rightarrow> LogEvent \<Rightarrow> Context \<Rightarrow> error + call list" where
  "expire mds (EString ev) c = Inr []"
| "expire mds (EMetaBlobEv b) c = metablob_expire mds b c"
| "expire mds (EClientMap v) c = EClientMap_expire mds v c"
| "expire mds (ESession v) c = ESession_expire mds v c"
| "expire mds (EAlloc w i tv) c = Inr [IdAlloc_save c tv]"
| "expire mds (EAnchor v) c = Inr [AnchorTable_save c]"
| "expire mds (EAnchorClient a) c = Inl Abort"
| "expire mds (EUpdate b) c = metablob_expire mds b c"
| "expire mds (EOpen b ins start_off) c = EOpen_expire mds ins c"
| "expire mds (ESlaveUpdate b opc r) c = metablob_expire mds b c"
| "expire mds (EImportMap b imps end_off) c =
     Inr [MDLog_import_map_expire_waiters_push_back c]"
| "expire mds (EPurgeFinish i n) c = Inl Abort"
| "expire mds (EExport b bs bnds) c =
     (case get_dirfrag (mdcache mds) bs of
        None \<Rightarrow> Inl Abort
      | Some dir \<Rightarrow>
          if \<not> migrator_is_exporting (mdcache mds) dir then Inl Abort
          else Inr [Migrator_add_export_finish_waiter dir c])"
| "expire mds (EImportStart b bs bnds) c = metablob_expire mds b c"
| "expire mds (EImportFinish bs s) c = Inl Abort"

subsection \<open>replay\<close>

text \<open>
  \<open>replay\<close> changes the cache, the anchor client, the client map and the id allocator
  through methods of classes that are not in journal.cc. These methods are parameters:
  functions over an opaque state \<open>'c\<close> that holds everything they read and write. Each
  field of \<open>ops\<close> is one method, named by its class; a method that returns a pointer
  returns it with the new state, a lookup returns \<open>None\<close> for a null pointer.
  \<open>CInode_new\<close> is \<open>new CInode(mdcache)\<close>; \<open>CInode_set_inode\<close> and
  \<open>CInode_set_symlink\<close> are the assignments to \<open>in->inode\<close> and \<open>in->symlink\<close>.
\<close>

type_synonym CDentry_ptr = nat

record 'c ops =
  MDCache_get_dirfrag :: "'c \<Rightarrow> dirfrag_t \<Rightarrow> CDir_ptr option"
  MDCache_get_inode :: "'c \<Rightarrow> inodeno_t \<Rightarrow> CInode_ptr option"
  MDCache_create_root_inode :: "'c \<Rightarrow> CInode_ptr \<times> 'c"
  MDCache_create_stray_inode :: "int \<Rightarrow> 'c \<Rightarrow> CInode_ptr \<times> 'c"
  MDCache_add_inode :: "CInode_ptr \<Rightarrow> 'c \<Rightarrow> 'c"
  MDCache_add_recovered_purge :: "inode_t \<Rightarrow> off_t \<Rightarrow> 'c \<Rightarrow> 'c"
  CInode_new :: "'c \<Rightarrow> CInode_ptr \<times> 'c"
  CInode_get_or_open_dirfrag :: "CInode_ptr \<Rightarrow> frag_t \<Rightarrow> 'c \<Rightarrow> CDir_ptr \<times> 'c"
  CInode_get_parent_dn :: "'c \<Rightarrow> CInode_ptr \<Rightarrow> CDentry_ptr option"
  CInode_set_inode :: "CInode_ptr \<Rightarrow> inode_t \<Rightarrow> 'c \<Rightarrow> 'c"
  CInode_set_symlink :: "CInode_ptr \<Rightarrow> string \<Rightarrow> 'c \<Rightarrow> 'c"
  CInode_mark_dirty :: "CInode_ptr \<Rightarrow> 'c \<Rightarrow> 'c"
  CDir_set_dir_auth :: "CDir_ptr \<Rightarrow> int \<Rightarrow> 'c \<Rightarrow> 'c"
  CDir_set_version :: "CDir_ptr \<Rightarrow> version_t \<Rightarrow> 'c \<Rightarrow> 'c"
  CDir_mark_dirty :: "CDir_ptr \<Rightarrow> 'c \<Rightarrow> 'c"
  CDir_mark_complete :: "CDir_ptr \<Rightarrow> 'c \<Rightarrow> 'c"
  CDir_lookup :: "'c \<Rightarrow> CDir_ptr \<Rightarrow> string \<Rightarrow> CDentry_ptr option"
  CDir_add_dentry :: "CDir_ptr \<Rightarrow> string \<Rightarrow> 'c \<Rightarrow> CDentry_ptr \<times> 'c"
  CDir_add_dentry_remote :: "CDir_ptr \<Rightarrow> string \<Rightarrow> inodeno_t \<Rightarrow> 'c \<Rightarrow> CDentry_ptr \<times> 'c"
  CDir_link_inode :: "CDir_ptr \<Rightarrow> CDentry_ptr \<Rightarrow> CInode_ptr \<Rightarrow> 'c \<Rightarrow> 'c"
  CDir_unlink_inode :: "CDir_ptr \<Rightarrow> CDentry_ptr \<Rightarrow> 'c \<Rightarrow> 'c"
  CDentry_set_version :: "CDentry_ptr \<Rightarrow> version_t \<Rightarrow> 'c \<Rightarrow> 'c"
  CDentry_mark_dirty :: "CDentry_ptr \<Rightarrow> 'c \<Rightarrow> 'c"
  CDentry_set_remote_ino :: "CDentry_ptr \<Rightarrow> inodeno_t \<Rightarrow> 'c \<Rightarrow> 'c"
  CDentry_is_null :: "'c \<Rightarrow> CDentry_ptr \<Rightarrow> bool"
  CDentry_get_dir :: "'c \<Rightarrow> CDentry_ptr \<Rightarrow> CDir_ptr"
  AnchorClient_got_journaled_agree :: "version_t \<Rightarrow> 'c \<Rightarrow> 'c"
  ClientMap_add_completed_request :: "metareqid_t \<Rightarrow> 'c \<Rightarrow> 'c"
  IdAlloc_get_version :: "'c \<Rightarrow> version_t"
  IdAlloc_alloc_id :: "bool \<Rightarrow> 'c \<Rightarrow> idno_t \<times> 'c"
  IdAlloc_reclaim_id :: "idno_t \<Rightarrow> bool \<Rightarrow> 'c \<Rightarrow> 'c"

text \<open>
  The constants and macros of mdstypes.h and CDir.h that \<open>EMetaBlob::replay\<close> uses, the
  test \<open>inode_t::is_symlink\<close>, and the lump a default-constructed \<open>dirlump\<close> is.
\<close>

record mds_consts =
  MDS_INO_ROOT :: inodeno_t
  MDS_INO_IS_STRAY :: "inodeno_t \<Rightarrow> bool"
  MDS_INO_STRAY_OFFSET :: inodeno_t
  CDIR_AUTH_UNKNOWN :: int
  inode_is_symlink :: "inode_t \<Rightarrow> bool"
  dirlump_default :: dirlump

text \<open>
  \<open>lump_map[*lp]\<close>: the lump stored for the dirfrag, or (no entry) a default-constructed
  lump, which \<open>operator[]\<close> inserts.
\<close>

definition lump_of :: "mds_consts \<Rightarrow> EMetaBlob \<Rightarrow> dirfrag_t \<Rightarrow> dirlump" where
  "lump_of k b lp =
     (case map_of (lump_map b) lp of None \<Rightarrow> dirlump_default k | Some l \<Rightarrow> l)"

text \<open>
  \<open>int whose = (*lp).ino - MDS_INO_STRAY_OFFSET\<close>: an unsigned 64-bit difference,
  converted to a 32-bit \<open>int\<close>.
\<close>

definition stray_whose :: "inodeno_t \<Rightarrow> inodeno_t \<Rightarrow> int" where
  "stray_whose i off = sint (word_of_int (int i - int off) :: 32 word)"

text \<open>The inode of a dirfrag that is not cached: lines 298 to 310.\<close>

definition resolve_inode :: "'c ops \<Rightarrow> mds_consts \<Rightarrow> dirfrag_t \<Rightarrow> 'c
    \<Rightarrow> error + (CInode_ptr \<times> 'c)" where
  "resolve_inode ops k lp c =
     (case MDCache_get_inode ops c (dirfrag_t.ino lp) of
        Some diri \<Rightarrow> Inr (diri, c)
      | None \<Rightarrow>
          if dirfrag_t.ino lp = MDS_INO_ROOT k then
            Inr (MDCache_create_root_inode ops c)
          else if MDS_INO_IS_STRAY k (dirfrag_t.ino lp) then
            Inr (MDCache_create_stray_inode ops
                   (stray_whose (dirfrag_t.ino lp) (MDS_INO_STRAY_OFFSET k)) c)
          else Inl Abort)"

text \<open>The dir of a lump: lines 295 to 316.\<close>

definition resolve_dir :: "'c ops \<Rightarrow> mds_consts \<Rightarrow> dirfrag_t \<Rightarrow> 'c
    \<Rightarrow> error + (CDir_ptr \<times> 'c)" where
  "resolve_dir ops k lp c =
     (case MDCache_get_dirfrag ops c lp of
        Some dir \<Rightarrow> Inr (dir, c)
      | None \<Rightarrow>
          (case resolve_inode ops k lp c of
             Inl e \<Rightarrow> Inl e
           | Inr (diri, c1) \<Rightarrow>
               (case CInode_get_or_open_dirfrag ops diri (frag lp) c1 of
                  (dir, c2) \<Rightarrow>
                    Inr (dir, if dirfrag_t.ino lp = 1
                              then CDir_set_dir_auth ops dir (CDIR_AUTH_UNKNOWN k) c2
                              else c2))))"

text \<open>One full dentry and inode pair: the body of the loop at line 327.\<close>

definition replay_full :: "'c ops \<Rightarrow> mds_consts \<Rightarrow> CDir_ptr \<Rightarrow> fullbit \<Rightarrow> 'c \<Rightarrow> 'c" where
  "replay_full ops k dir p c =
     (case (case CDir_lookup ops c dir (fullbit.dn p) of
              None \<Rightarrow>
                (case CDir_add_dentry ops dir (fullbit.dn p) c of
                   (dentry, c1) \<Rightarrow>
                     let c2 = CDentry_set_version ops dentry (fullbit.dnv p) c1
                     in (dentry, if fullbit.dirty p then CDentry_mark_dirty ops dentry c2 else c2))
            | Some dentry \<Rightarrow>
                let c2 = CDentry_set_version ops dentry (fullbit.dnv p) c
                in (dentry, if fullbit.dirty p then CDentry_mark_dirty ops dentry c2 else c2)) of
        (dentry, c3) \<Rightarrow>
          (case MDCache_get_inode ops c3 (inode_t.ino (inode p)) of
             None \<Rightarrow>
               (case CInode_new ops c3 of
                  (i, c4) \<Rightarrow>
                    let c5 = CInode_set_inode ops i (inode p) c4;
                        c6 = (if inode_is_symlink k (inode p)
                              then CInode_set_symlink ops i (symlink p) c5 else c5);
                        c7 = MDCache_add_inode ops i c6;
                        c8 = CDir_link_inode ops dir dentry i c7
                    in if fullbit.dirty p then CInode_mark_dirty ops i c8 else c8)
           | Some i \<Rightarrow>
               let c4 = (case CInode_get_parent_dn ops c3 i of
                           None \<Rightarrow> c3
                         | Some pdn \<Rightarrow>
                             CDir_unlink_inode ops (CDentry_get_dir ops c3 pdn) pdn c3);
                   c5 = CInode_set_inode ops i (inode p) c4;
                   c6 = (if inode_is_symlink k (inode p)
                         then CInode_set_symlink ops i (symlink p) c5 else c5);
                   c7 = CDir_link_inode ops dir dentry i c6
               in if fullbit.dirty p then CInode_mark_dirty ops i c7 else c7))"

text \<open>One remote dentry: the body of the loop at line 365.\<close>

definition replay_remote :: "'c ops \<Rightarrow> CDir_ptr \<Rightarrow> remotebit \<Rightarrow> 'c \<Rightarrow> 'c" where
  "replay_remote ops dir p c =
     (case CDir_lookup ops c dir (remotebit.dn p) of
        None \<Rightarrow>
          (case CDir_add_dentry_remote ops dir (remotebit.dn p) (remotebit.ino p) c of
             (dentry, c1) \<Rightarrow>
               let c2 = CDentry_set_remote_ino ops dentry (remotebit.ino p) c1;
                   c3 = CDentry_set_version ops dentry (remotebit.dnv p) c2
               in if remotebit.dirty p then CDentry_mark_dirty ops dentry c3 else c3)
      | Some dentry \<Rightarrow>
          let c1 = (if \<not> CDentry_is_null ops c dentry then CDir_unlink_inode ops dir dentry c else c);
              c2 = CDentry_set_remote_ino ops dentry (remotebit.ino p) c1;
              c3 = CDentry_set_version ops dentry (remotebit.dnv p) c2
          in if remotebit.dirty p then CDentry_mark_dirty ops dentry c3 else c3)"

text \<open>One null dentry: the body of the loop at line 388.\<close>

definition replay_null :: "'c ops \<Rightarrow> CDir_ptr \<Rightarrow> nullbit \<Rightarrow> 'c \<Rightarrow> 'c" where
  "replay_null ops dir p c =
     (case CDir_lookup ops c dir (nullbit.dn p) of
        None \<Rightarrow>
          (case CDir_add_dentry ops dir (nullbit.dn p) c of
             (dentry, c1) \<Rightarrow>
               let c2 = CDentry_set_version ops dentry (nullbit.dnv p) c1
               in if nullbit.dirty p then CDentry_mark_dirty ops dentry c2 else c2)
      | Some dentry \<Rightarrow>
          let c1 = (if \<not> CDentry_is_null ops c dentry then CDir_unlink_inode ops dir dentry c else c);
              c2 = CDentry_set_version ops dentry (nullbit.dnv p) c1
          in if nullbit.dirty p then CDentry_mark_dirty ops dentry c2 else c2)"

text \<open>One dirfrag of \<open>lump_order\<close>: the body of the loop at line 288.\<close>

definition replay_lump :: "'c ops \<Rightarrow> mds_consts \<Rightarrow> EMetaBlob \<Rightarrow> dirfrag_t \<Rightarrow> 'c
    \<Rightarrow> error + 'c" where
  "replay_lump ops k b lp c =
     (case resolve_dir ops k lp c of
        Inl e \<Rightarrow> Inl e
      | Inr (dir, c1) \<Rightarrow>
          let lump = lump_of k b lp;
              c2 = CDir_set_version ops dir (dirv lump) c1;
              c3 = (if is_dirty lump then CDir_mark_dirty ops dir c2 else c2);
              c4 = (if is_complete lump then CDir_mark_complete ops dir c3 else c3);
              c5 = fold (replay_full ops k dir) (dfull lump) c4;
              c6 = fold (replay_remote ops dir) (dremote lump) c5
          in Inr (fold (replay_null ops dir) (dnull lump) c6))"

fun replay_lumps :: "'c ops \<Rightarrow> mds_consts \<Rightarrow> EMetaBlob \<Rightarrow> dirfrag_t list \<Rightarrow> 'c
    \<Rightarrow> error + 'c" where
  "replay_lumps ops k b [] c = Inr c"
| "replay_lumps ops k b (lp # lps) c =
     (case replay_lump ops k b lp c of
        Inl e \<Rightarrow> Inl e
      | Inr c1 \<Rightarrow> replay_lumps ops k b lps c1)"

definition EMetaBlob_replay :: "'c ops \<Rightarrow> mds_consts \<Rightarrow> EMetaBlob \<Rightarrow> 'c \<Rightarrow> error + 'c" where
  "EMetaBlob_replay ops k b c =
     (case replay_lumps ops k b (lump_order b) c of
        Inl e \<Rightarrow> Inl e
      | Inr c1 \<Rightarrow>
          let c2 = fold (AnchorClient_got_journaled_agree ops) (atids b) c1;
              c3 = fold (\<lambda>p. MDCache_add_recovered_purge ops (fst p) (snd p))
                     (truncated_inodes b) c2
          in Inr (fold (ClientMap_add_completed_request ops) (client_reqs b) c3))"

text \<open>
  The MDS under replay: the opaque state, and the map
  \<open>mdcache->uncommitted_slave_updates\<close>, which journal.cc reads and writes itself.
\<close>

record 'c replay_mds =
  live :: 'c
  uncommitted_slave_updates :: "metareqid_t \<rightharpoonup> EMetaBlob"

definition ESlaveUpdate_replay :: "'c ops \<Rightarrow> mds_consts \<Rightarrow> EMetaBlob \<Rightarrow> slave_op
    \<Rightarrow> metareqid_t \<Rightarrow> 'c replay_mds \<Rightarrow> error + 'c replay_mds" where
  "ESlaveUpdate_replay ops k b opc r s =
     (case opc of
        OP_PREPARE \<Rightarrow>
          if uncommitted_slave_updates s r \<noteq> None then Inl Abort
          else Inr (s\<lparr>uncommitted_slave_updates := (uncommitted_slave_updates s)(r \<mapsto> b)\<rparr>)
      | OP_COMMIT \<Rightarrow>
          (case uncommitted_slave_updates s r of
             Some saved \<Rightarrow>
               (case EMetaBlob_replay ops k saved (live s) of
                  Inl e \<Rightarrow> Inl e
                | Inr c \<Rightarrow>
                    Inr (s\<lparr>live := c,
                           uncommitted_slave_updates :=
                             (uncommitted_slave_updates s)(r := None)\<rparr>))
           | None \<Rightarrow> Inr s)
      | OP_ABORT \<Rightarrow>
          (case uncommitted_slave_updates s r of
             Some saved \<Rightarrow>
               Inr (s\<lparr>uncommitted_slave_updates :=
                        (uncommitted_slave_updates s)(r := None)\<rparr>)
           | None \<Rightarrow> Inr s)
      | OP_other n \<Rightarrow> Inl Abort)"

text \<open>
  A journal replayed in log order; an abort ends the replay. An entry is an
  \<open>ESlaveUpdate\<close>, or any other event, given by what its \<open>replay\<close> does to the opaque
  state: in journal.cc no \<open>replay\<close> but \<open>ESlaveUpdate\<close>'s reads or writes
  \<open>uncommitted_slave_updates\<close>.
\<close>

datatype 'c journal_entry =
    SlaveUpdate EMetaBlob slave_op metareqid_t
  | OtherEvent "'c \<Rightarrow> error + 'c"

fun replay_entry :: "'c ops \<Rightarrow> mds_consts \<Rightarrow> 'c journal_entry \<Rightarrow> 'c replay_mds
    \<Rightarrow> error + 'c replay_mds" where
  "replay_entry ops k (SlaveUpdate b opc r) s = ESlaveUpdate_replay ops k b opc r s"
| "replay_entry ops k (OtherEvent f) s =
     (case f (live s) of Inl e \<Rightarrow> Inl e | Inr c \<Rightarrow> Inr (s\<lparr>live := c\<rparr>))"

fun replay_journal :: "'c ops \<Rightarrow> mds_consts \<Rightarrow> 'c journal_entry list \<Rightarrow> 'c replay_mds
    \<Rightarrow> error + 'c replay_mds" where
  "replay_journal ops k [] s = Inr s"
| "replay_journal ops k (ev # evs) s =
     (case replay_entry ops k ev s of
        Inl e \<Rightarrow> Inl e
      | Inr s1 \<Rightarrow> replay_journal ops k evs s1)"

definition EAlloc_replay :: "'c ops \<Rightarrow> ealloc_what \<Rightarrow> idno_t \<Rightarrow> version_t \<Rightarrow> 'c
    \<Rightarrow> error + 'c" where
  "EAlloc_replay ops w i tv c =
     (if IdAlloc_get_version ops c \<ge> tv then Inr c
      else if tv - 1 \<noteq> IdAlloc_get_version ops c then Inl Abort
      else
        (case w of
           EALLOC_EV_ALLOC \<Rightarrow>
             (case IdAlloc_alloc_id ops True c of
                (nid, c1) \<Rightarrow>
                  if nid \<noteq> i then Inl Abort
                  else if tv \<noteq> IdAlloc_get_version ops c1 then Inl Abort
                  else Inr c1)
         | EALLOC_EV_FREE \<Rightarrow>
             let c1 = IdAlloc_reclaim_id ops i True c
             in if tv \<noteq> IdAlloc_get_version ops c1 then Inl Abort else Inr c1
         | EALLOC_EV_other n \<Rightarrow> Inl Abort))"

subsection \<open>Concrete states and events\<close>

text \<open>
  An MDS (node 0) with an empty cache, and the same MDS caching one dirfrag or one
  inode. The blob \<open>blob_one_lump\<close> has one lump, for dirfrag (1, 0), with \<open>dirv = 7\<close>.
\<close>

definition mds_idle :: MDS where
  "mds_idle =
     \<lparr>get_nodeid = 0,
      mdcache = \<lparr>get_dirfrag = (\<lambda>df. None), get_inode = (\<lambda>i. None),
                 get_subtree_root = (\<lambda>d. d), is_purging = (\<lambda>i n. False),
                 migrator_is_exporting = (\<lambda>d. False),
                 cdir = (\<lambda>d. \<lparr>authority = (0, -2), get_committed_version = 0,
                               is_ambiguous_dir_auth = False, is_exporting = False,
                               can_auth_pin = True\<rparr>),
                 cinode = (\<lambda>i. \<lparr>is_any_caps = False, last_open_journaled = 0\<rparr>)\<rparr>,
      anchorclient_has_committed = (\<lambda>a. True),
      clientmap = \<lparr>get_committed = 0, get_committing = 0,
                   have_completed_request = (\<lambda>r. False)\<rparr>,
      idalloc_committed_version = 0,
      anchortable_committed_version = 0,
      mdlog = \<lparr>last_import_map = 0, is_capped = False\<rparr>\<rparr>"

definition mds_with_dir :: "CDir \<Rightarrow> MDS" where
  "mds_with_dir d =
     mds_idle\<lparr>mdcache := (mdcache mds_idle)
       \<lparr>get_dirfrag := (\<lambda>df. if df = \<lparr>dirfrag_t.ino = 1, frag = 0\<rparr> then Some 100 else None),
        cdir := (\<lambda>p. d)\<rparr>\<rparr>"

definition mds_with_inode :: "CInode \<Rightarrow> MDS" where
  "mds_with_inode i =
     mds_idle\<lparr>mdcache := (mdcache mds_idle)
       \<lparr>get_inode := (\<lambda>n. if n = 5 then Some 200 else None),
        cinode := (\<lambda>p. i)\<rparr>\<rparr>"

definition mds_clientmap :: "version_t \<Rightarrow> version_t \<Rightarrow> MDS" where
  "mds_clientmap cd cg =
     mds_idle\<lparr>clientmap := (clientmap mds_idle)\<lparr>get_committed := cd, get_committing := cg\<rparr>\<rparr>"

definition blob_empty :: EMetaBlob where
  "blob_empty =
     \<lparr>lump_order = [], lump_map = [], atids = [], truncated_inodes = [], client_reqs = []\<rparr>"

definition lump7 :: dirlump where
  "lump7 = \<lparr>dirv = 7, is_dirty = True, is_complete = False,
             dfull = [], dremote = [], dnull = []\<rparr>"

definition blob_one_lump :: EMetaBlob where
  "blob_one_lump =
     blob_empty\<lparr>lump_order := [\<lparr>dirfrag_t.ino = 1, frag = 0\<rparr>],
                lump_map := [(\<lparr>dirfrag_t.ino = 1, frag = 0\<rparr>, lump7)]\<rparr>"

text \<open>
  An instance of the parameters, for running \<open>replay\<close>: a cache that only records which
  inodes and dirfrags it holds, a client map that records the completed requests, and an
  allocator that hands out \<open>100 + version\<close>.
\<close>

record toy_cache =
  t_inodes :: "inodeno_t list"
  t_dirfrags :: "dirfrag_t list"
  t_completed :: "metareqid_t list"
  t_alloc_version :: version_t

definition toy_ops :: "toy_cache ops" where
  "toy_ops =
     \<lparr>MDCache_get_dirfrag = (\<lambda>c lp. if lp \<in> set (t_dirfrags c) then Some (dirfrag_t.ino lp) else None),
      MDCache_get_inode = (\<lambda>c i. if i \<in> set (t_inodes c) then Some i else None),
      MDCache_create_root_inode = (\<lambda>c. (1, c\<lparr>t_inodes := 1 # t_inodes c\<rparr>)),
      MDCache_create_stray_inode =
        (\<lambda>w c. (nat (65536 + w), c\<lparr>t_inodes := nat (65536 + w) # t_inodes c\<rparr>)),
      MDCache_add_inode = (\<lambda>i c. c),
      MDCache_add_recovered_purge = (\<lambda>i n c. c),
      CInode_new = (\<lambda>c. (0, c)),
      CInode_get_or_open_dirfrag =
        (\<lambda>i f c. (i, c\<lparr>t_dirfrags := \<lparr>dirfrag_t.ino = i, frag = f\<rparr> # t_dirfrags c\<rparr>)),
      CInode_get_parent_dn = (\<lambda>c i. None),
      CInode_set_inode = (\<lambda>i n c. c),
      CInode_set_symlink = (\<lambda>i l c. c),
      CInode_mark_dirty = (\<lambda>i c. c),
      CDir_set_dir_auth = (\<lambda>d a c. c),
      CDir_set_version = (\<lambda>d v c. c),
      CDir_mark_dirty = (\<lambda>d c. c),
      CDir_mark_complete = (\<lambda>d c. c),
      CDir_lookup = (\<lambda>c d n. None),
      CDir_add_dentry = (\<lambda>d n c. (0, c)),
      CDir_add_dentry_remote = (\<lambda>d n i c. (0, c)),
      CDir_link_inode = (\<lambda>d n i c. c),
      CDir_unlink_inode = (\<lambda>d n c. c),
      CDentry_set_version = (\<lambda>n v c. c),
      CDentry_mark_dirty = (\<lambda>n c. c),
      CDentry_set_remote_ino = (\<lambda>n i c. c),
      CDentry_is_null = (\<lambda>c n. True),
      CDentry_get_dir = (\<lambda>c n. 0),
      AnchorClient_got_journaled_agree = (\<lambda>a c. c),
      ClientMap_add_completed_request = (\<lambda>r c. c\<lparr>t_completed := r # t_completed c\<rparr>),
      IdAlloc_get_version = t_alloc_version,
      IdAlloc_alloc_id =
        (\<lambda>r c. (100 + t_alloc_version c, c\<lparr>t_alloc_version := Suc (t_alloc_version c)\<rparr>)),
      IdAlloc_reclaim_id = (\<lambda>i r c. c\<lparr>t_alloc_version := Suc (t_alloc_version c)\<rparr>)\<rparr>"

definition toy_consts :: mds_consts where
  "toy_consts =
     \<lparr>MDS_INO_ROOT = 1,
      MDS_INO_IS_STRAY = (\<lambda>i. 65536 \<le> i \<and> i < 65536 + 256),
      MDS_INO_STRAY_OFFSET = 65536,
      CDIR_AUTH_UNKNOWN = - 2,
      inode_is_symlink = (\<lambda>i. False),
      dirlump_default = \<lparr>dirv = 0, is_dirty = False, is_complete = False,
                         dfull = [], dremote = [], dnull = []\<rparr>\<rparr>"

definition toy_empty :: toy_cache where
  "toy_empty = \<lparr>t_inodes = [], t_dirfrags = [], t_completed = [], t_alloc_version = 4\<rparr>"

text \<open>
  A blob for the root dirfrag and the stray dirfrag of node 2, and a blob for a dirfrag
  of inode 5000, which is neither.
\<close>

definition blob_root_stray :: EMetaBlob where
  "blob_root_stray =
     blob_empty\<lparr>lump_order := [\<lparr>dirfrag_t.ino = 1, frag = 0\<rparr>, \<lparr>dirfrag_t.ino = 65538, frag = 0\<rparr>],
                lump_map := [(\<lparr>dirfrag_t.ino = 1, frag = 0\<rparr>, lump7),
                             (\<lparr>dirfrag_t.ino = 65538, frag = 0\<rparr>, lump7)],
                client_reqs := [42]\<rparr>"

definition blob_orphan :: EMetaBlob where
  "blob_orphan =
     blob_empty\<lparr>lump_order := [\<lparr>dirfrag_t.ino = 5000, frag = 0\<rparr>],
                lump_map := [(\<lparr>dirfrag_t.ino = 5000, frag = 0\<rparr>, lump7)]\<rparr>"

definition toy_mds :: "toy_cache replay_mds" where
  "toy_mds = \<lparr>live = toy_empty, uncommitted_slave_updates = Map.empty\<rparr>"

subsection \<open>Notions used in the statements\<close>

text \<open>
  A lump holds its blob back when its dirfrag is cached, this node is the first of the
  dir's authority, and the dir's committed version is below the lump's \<open>dirv\<close>.
\<close>

definition lump_unsatisfied :: "MDS \<Rightarrow> dirfrag_t \<times> dirlump \<Rightarrow> bool" where
  "lump_unsatisfied mds p =
     (case get_dirfrag (mdcache mds) (fst p) of
        None \<Rightarrow> False
      | Some dir \<Rightarrow>
          fst (authority (cdir (mdcache mds) dir)) = get_nodeid mds \<and>
          get_committed_version (cdir (mdcache mds) dir) < dirv (snd p))"

text \<open>The completion a call carries, and the calls that carry the completion they are given.\<close>

definition call_context :: "call \<Rightarrow> Context option" where
  "call_context x =
     (case x of
        CDir_commit d v c \<Rightarrow> Some c
      | CDir_add_waiter d t c \<Rightarrow> Some c
      | Migrator_add_export_finish_waiter d c \<Rightarrow> Some c
      | AnchorClient_wait_for_ack a c \<Rightarrow> Some c
      | MDCache_wait_for_purge i n c \<Rightarrow> Some c
      | ClientMap_add_trim_waiter r c \<Rightarrow> Some c
      | ClientMap_add_commit_waiter c \<Rightarrow> Some c
      | MDS_log_clientmap c \<Rightarrow> Some c
      | IdAlloc_save c v \<Rightarrow> Some c
      | AnchorTable_save c \<Rightarrow> Some c
      | Server_queue_journal_open i \<Rightarrow> None
      | Server_add_journal_open_waiter c \<Rightarrow> Some c
      | Server_maybe_journal_opens \<Rightarrow> None
      | MDLog_import_map_expire_waiters_push_back c \<Rightarrow> Some c)"

definition takes_context :: "(Context \<Rightarrow> call) \<Rightarrow> bool" where
  "takes_context f = (\<forall>c. call_context (f c) = Some c)"

text \<open>Directories for the concrete states.\<close>

definition dir_exporting_committed :: CDir where
  "dir_exporting_committed =
     \<lparr>authority = (0, 1), get_committed_version = 9, is_ambiguous_dir_auth = True,
      is_exporting = True, can_auth_pin = False\<rparr>"

definition dir_exporting_dirty :: CDir where
  "dir_exporting_dirty =
     \<lparr>authority = (0, 1), get_committed_version = 5, is_ambiguous_dir_auth = True,
      is_exporting = True, can_auth_pin = False\<rparr>"

definition dir_dirty :: CDir where
  "dir_dirty =
     \<lparr>authority = (0, -2), get_committed_version = 5, is_ambiguous_dir_auth = False,
      is_exporting = False, can_auth_pin = True\<rparr>"

definition dir_exported :: CDir where
  "dir_exported =
     \<lparr>authority = (1, -2), get_committed_version = 5, is_ambiguous_dir_auth = False,
      is_exporting = False, can_auth_pin = True\<rparr>"

definition dir_committed :: "version_t \<Rightarrow> CDir" where
  "dir_committed v =
     \<lparr>authority = (0, -2), get_committed_version = v, is_ambiguous_dir_auth = False,
      is_exporting = False, can_auth_pin = True\<rparr>"

text \<open>
  The fatal branch of \<open>EMetaBlob::replay\<close> is taken at a dirfrag when neither the dirfrag
  nor its inode is cached and the inode is neither the root nor a stray.
\<close>

definition missing_inode_fatal :: "'c ops \<Rightarrow> mds_consts \<Rightarrow> 'c \<Rightarrow> dirfrag_t \<Rightarrow> bool" where
  "missing_inode_fatal ops k c lp =
     (MDCache_get_dirfrag ops c lp = None \<and>
      MDCache_get_inode ops c (dirfrag_t.ino lp) = None \<and>
      dirfrag_t.ino lp \<noteq> MDS_INO_ROOT k \<and>
      \<not> MDS_INO_IS_STRAY k (dirfrag_t.ino lp))"

text \<open>
  What a lump of a blob still waits for, in the words of the expire action: nothing when
  its dir is not cached, is not this node's, or has committed the lump's version; the end
  of the export or of the import, on the root of the subtree, when the dir's authority is
  ambiguous; a commit of the dir to the lump's version otherwise.
\<close>

datatype need = Need_commit CDir_ptr version_t | Need_export CDir_ptr | Need_import CDir_ptr

definition lump_need :: "MDS \<Rightarrow> dirfrag_t \<times> dirlump \<Rightarrow> need option" where
  "lump_need mds p =
     (case get_dirfrag (mdcache mds) (fst p) of
        None \<Rightarrow> None
      | Some dir \<Rightarrow>
          if fst (authority (cdir (mdcache mds) dir)) \<noteq> get_nodeid mds
             \<or> get_committed_version (cdir (mdcache mds) dir) \<ge> dirv (snd p)
          then None
          else if is_ambiguous_dir_auth (cdir (mdcache mds) dir) then
            (if is_exporting (cdir (mdcache mds) (get_subtree_root (mdcache mds) dir))
             then Some (Need_export (get_subtree_root (mdcache mds) dir))
             else Some (Need_import (get_subtree_root (mdcache mds) dir)))
          else Some (Need_commit dir (dirv (snd p))))"

definition needs :: "MDS \<Rightarrow> EMetaBlob \<Rightarrow> need list" where
  "needs mds b = List.map_filter (lump_need mds) (lump_map b)"

fun export_roots :: "need list \<Rightarrow> CDir_ptr list" where
  "export_roots [] = []"
| "export_roots (Need_export r # ns) = r # export_roots ns"
| "export_roots (n # ns) = export_roots ns"

fun import_roots :: "need list \<Rightarrow> CDir_ptr list" where
  "import_roots [] = []"
| "import_roots (Need_import r # ns) = r # import_roots ns"
| "import_roots (n # ns) = import_roots ns"

fun commit_need :: "need \<Rightarrow> (CDir_ptr \<times> version_t) list \<Rightarrow> (CDir_ptr \<times> version_t) list" where
  "commit_need (Need_commit dir v) m = commit_set dir (max (commit_get m dir) v) m"
| "commit_need n m = m"

text \<open>The greatest of a set of versions.\<close>

definition is_max :: "version_t set \<Rightarrow> version_t \<Rightarrow> bool" where
  "is_max V v = (v \<in> V \<and> (\<forall>v' \<in> V. v' \<le> v))"

text \<open>The same MDS with the ambiguity flag of every dir set as \<open>f\<close> says.\<close>

definition with_ambiguity :: "(CDir_ptr \<Rightarrow> bool) \<Rightarrow> MDS \<Rightarrow> MDS" where
  "with_ambiguity f mds =
     mds\<lparr>mdcache := (mdcache mds)
       \<lparr>cdir := (\<lambda>p. (cdir (mdcache mds) p)\<lparr>is_ambiguous_dir_auth := f p\<rparr>)\<rparr>\<rparr>"

text \<open>A dir of a subtree being imported from node 1: authority ambiguous, first is node 1.\<close>

definition dir_importing_remote :: CDir where
  "dir_importing_remote =
     \<lparr>authority = (1, 0), get_committed_version = 5, is_ambiguous_dir_auth = True,
      is_exporting = False, can_auth_pin = False\<rparr>"

text \<open>
  What an event waits for before it may be trimmed, one dependency per entry the event
  itself names, and when a dependency is satisfied in a state of the MDS: a lump when its
  dirfrag is not cached, or the dir's authority starts with another node, or the dir has
  committed the lump's version; an anchor operation when it has committed; a truncation
  when the purge is over; a client request when it is no longer among the completed
  requests; a table version when the table has committed it; an open inode when it is not
  cached, or has no caps, or has its open journaled later (or never); an import map when a
  later one is in the log or the log is capped; an export when its base is not cached or
  is no longer exporting.
\<close>

datatype dep =
    Dep_lump dirfrag_t dirlump
  | Dep_anchor version_t
  | Dep_purge inodeno_t off_t
  | Dep_request metareqid_t
  | Dep_clientmap version_t
  | Dep_idalloc version_t
  | Dep_anchortable version_t
  | Dep_open inodeno_t off_t
  | Dep_importmap off_t
  | Dep_export dirfrag_t

definition blob_deps :: "EMetaBlob \<Rightarrow> dep list" where
  "blob_deps b =
     map (\<lambda>p. Dep_lump (fst p) (snd p)) (lump_map b)
     @ map Dep_anchor (atids b)
     @ map (\<lambda>p. Dep_purge (inode_t.ino (fst p)) (snd p)) (truncated_inodes b)
     @ map Dep_request (client_reqs b)"

fun deps :: "LogEvent \<Rightarrow> dep list" where
  "deps (EString ev) = []"
| "deps (EMetaBlobEv b) = blob_deps b"
| "deps (EClientMap v) = [Dep_clientmap v]"
| "deps (ESession v) = [Dep_clientmap v]"
| "deps (EAlloc w i tv) = [Dep_idalloc tv]"
| "deps (EAnchor v) = [Dep_anchortable v]"
| "deps (EAnchorClient a) = []"
| "deps (EUpdate b) = blob_deps b"
| "deps (EOpen b ins start_off) = map (\<lambda>i. Dep_open i start_off) ins"
| "deps (ESlaveUpdate b opc r) = blob_deps b"
| "deps (EImportMap b imps end_off) = [Dep_importmap end_off]"
| "deps (EPurgeFinish i n) = []"
| "deps (EExport b bs bnds) = [Dep_export bs]"
| "deps (EImportStart b bs bnds) = blob_deps b"
| "deps (EImportFinish bs s) = []"

fun satisfied :: "MDS \<Rightarrow> dep \<Rightarrow> bool" where
  "satisfied s (Dep_lump df l) =
     (case get_dirfrag (mdcache s) df of
        None \<Rightarrow> True
      | Some dir \<Rightarrow>
          fst (authority (cdir (mdcache s) dir)) \<noteq> get_nodeid s
          \<or> dirv l \<le> get_committed_version (cdir (mdcache s) dir))"
| "satisfied s (Dep_anchor a) = anchorclient_has_committed s a"
| "satisfied s (Dep_purge i n) = (\<not> is_purging (mdcache s) i n)"
| "satisfied s (Dep_request r) = (\<not> have_completed_request (clientmap s) r)"
| "satisfied s (Dep_clientmap v) = (v \<le> get_committed (clientmap s))"
| "satisfied s (Dep_idalloc v) = (v \<le> idalloc_committed_version s)"
| "satisfied s (Dep_anchortable v) = (v \<le> anchortable_committed_version s)"
| "satisfied s (Dep_open i start_off) =
     (case get_inode (mdcache s) i of
        None \<Rightarrow> True
      | Some p \<Rightarrow>
          \<not> is_any_caps (cinode (mdcache s) p)
          \<or> start_off < last_open_journaled (cinode (mdcache s) p)
          \<or> last_open_journaled (cinode (mdcache s) p) = 0)"
| "satisfied s (Dep_importmap end_off) =
     (end_off < last_import_map (mdlog s) \<or> is_capped (mdlog s))"
| "satisfied s (Dep_export df) =
     (case get_dirfrag (mdcache s) df of
        None \<Rightarrow> True
      | Some dir \<Rightarrow> \<not> migrator_is_exporting (mdcache s) dir)"

section \<open>Properties\<close>

subsection \<open>Auxiliary facts\<close>

lemma has_expired_lumps_eq:
  "has_expired_lumps mds lps = Inr (\<not> list_ex (lump_unsatisfied mds) lps)"
  by (induction lps) (auto simp: lump_unsatisfied_def split: option.splits)

lemma EMetaBlob_has_expired_eq:
  "EMetaBlob_has_expired mds b =
     Inr (\<not> list_ex (lump_unsatisfied mds) (lump_map b)
          \<and> \<not> list_ex (\<lambda>p. \<not> anchorclient_has_committed mds p) (atids b)
          \<and> \<not> list_ex (\<lambda>p. is_purging (mdcache mds) (inode_t.ino (fst p)) (snd p)) (truncated_inodes b)
          \<and> \<not> list_ex (\<lambda>p. have_completed_request (clientmap mds) p) (client_reqs b))"
  by (simp add: EMetaBlob_has_expired_def has_expired_lumps_eq split: bool.splits)

lemma blob_one_lump_simps:
  "lump_map blob_one_lump = [(\<lparr>dirfrag_t.ino = 1, frag = 0\<rparr>, lump7)]"
  "atids blob_one_lump = []" "truncated_inodes blob_one_lump = []"
  "client_reqs blob_one_lump = []"
  "dirv lump7 = 7"
  by (simp_all add: blob_one_lump_def blob_empty_def lump7_def)

lemma mds_with_dir_simps:
  "get_dirfrag (mdcache (mds_with_dir d)) df =
     (if df = \<lparr>dirfrag_t.ino = 1, frag = 0\<rparr> then Some 100 else None)"
  "cdir (mdcache (mds_with_dir d)) p = d"
  "get_nodeid (mds_with_dir d) = 0"
  "get_subtree_root (mdcache (mds_with_dir d)) p = p"
  by (simp_all add: mds_with_dir_def mds_idle_def)

lemma mds_with_dir_more_simps:
  "anchorclient_has_committed (mds_with_dir d) a"
  "\<not> is_purging (mdcache (mds_with_dir d)) i n"
  "\<not> have_completed_request (clientmap (mds_with_dir d)) r"
  "can_auth_pin (cdir (mdcache (mds_with_dir d)) p) = can_auth_pin d"
  by (simp_all add: mds_with_dir_def mds_idle_def)

lemma error_cases: "(x :: error + 'a) = Inl Abort \<or> (\<exists>y. x = Inr y)"
  by (cases x) (auto intro: error.exhaust)

lemma not_Inr_iff: "(\<forall>y. (x :: error + 'a) \<noteq> Inr y) \<longleftrightarrow> x = Inl Abort"
  using error_cases [of x] by auto

lemma resolve_dir_abort_iff:
  "resolve_dir ops k lp c = Inl Abort \<longleftrightarrow> missing_inode_fatal ops k c lp"
  by (auto simp: resolve_dir_def resolve_inode_def missing_inode_fatal_def
      split: option.splits sum.splits prod.splits if_splits)

lemma replay_lump_abort_iff:
  "replay_lump ops k b lp c = Inl Abort \<longleftrightarrow> missing_inode_fatal ops k c lp"
  using resolve_dir_abort_iff [of ops k lp c]
  by (cases "resolve_dir ops k lp c") (auto simp: replay_lump_def Let_def)

lemma replay_lumps_abort_iff:
  "replay_lumps ops k b lps c = Inl Abort \<longleftrightarrow>
     (\<exists>pre lp suf c'. lps = pre @ lp # suf \<and> replay_lumps ops k b pre c = Inr c' \<and>
        missing_inode_fatal ops k c' lp)"
proof (induction lps arbitrary: c)
  case Nil
  then show ?case by simp
next
  case (Cons x lps)
  show ?case
  proof (cases "replay_lump ops k b x c")
    case (Inl e)
    then have f: "missing_inode_fatal ops k c x"
      using replay_lump_abort_iff [of ops k b x c] by (cases e) simp
    have "x # lps = [] @ x # lps \<and> replay_lumps ops k b [] c = Inr c \<and> missing_inode_fatal ops k c x"
      using f by simp
    then have "\<exists>pre lp suf c'. x # lps = pre @ lp # suf \<and> replay_lumps ops k b pre c = Inr c' \<and>
        missing_inode_fatal ops k c' lp"
      by blast
    moreover have "replay_lumps ops k b (x # lps) c = Inl Abort"
      using Inl by (cases e) simp
    ultimately show ?thesis by simp
  next
    case (Inr c1)
    then have nf: "\<not> missing_inode_fatal ops k c x"
      using replay_lump_abort_iff [of ops k b x c] by simp
    have "(\<exists>pre lp suf c'. x # lps = pre @ lp # suf \<and> replay_lumps ops k b pre c = Inr c' \<and>
        missing_inode_fatal ops k c' lp) \<longleftrightarrow>
          (\<exists>pre lp suf c'. lps = pre @ lp # suf \<and> replay_lumps ops k b pre c1 = Inr c' \<and>
        missing_inode_fatal ops k c' lp)" (is "?L \<longleftrightarrow> ?R")
    proof
      assume ?L
      then obtain pre lp suf c' where h: "x # lps = pre @ lp # suf"
        "replay_lumps ops k b pre c = Inr c'" "missing_inode_fatal ops k c' lp"
        by blast
      show ?R
      proof (cases pre)
        case Nil
        with h nf show ?thesis by simp
      next
        case (Cons y pre')
        with h Inr have "lps = pre' @ lp # suf" "replay_lumps ops k b pre' c1 = Inr c'"
          by auto
        with h(3) show ?thesis by blast
      qed
    next
      assume ?R
      then obtain pre lp suf c' where h: "lps = pre @ lp # suf"
        "replay_lumps ops k b pre c1 = Inr c'" "missing_inode_fatal ops k c' lp"
        by blast
      then have "x # lps = (x # pre) @ lp # suf" "replay_lumps ops k b (x # pre) c = Inr c'"
        using Inr by auto
      with h(3) show ?L by blast
    qed
    with Cons.IH [of c1] Inr show ?thesis by simp
  qed
qed

lemma replay_lumps_root_or_stray:
  "\<forall>lp \<in> set lps. dirfrag_t.ino lp = MDS_INO_ROOT k \<or> MDS_INO_IS_STRAY k (dirfrag_t.ino lp)
   \<Longrightarrow> \<exists>c'. replay_lumps ops k b lps c = Inr c'"
  using replay_lumps_abort_iff [of ops k b lps c] error_cases [of "replay_lumps ops k b lps c"]
  by (auto simp: missing_inode_fatal_def)

lemma EMetaBlob_replay_abort_iff:
  "EMetaBlob_replay ops k b c = Inl Abort \<longleftrightarrow>
     replay_lumps ops k b (lump_order b) c = Inl Abort"
  using error_cases [of "replay_lumps ops k b (lump_order b) c"]
  by (auto simp: EMetaBlob_replay_def Let_def)

lemma stray_whose_2: "stray_whose 65538 65536 = 2"
  by (simp add: stray_whose_def)

lemma replay_root_stray:
  "EMetaBlob_replay toy_ops toy_consts blob_root_stray toy_empty
     = Inr \<lparr>t_inodes = [65538, 1],
            t_dirfrags = [\<lparr>dirfrag_t.ino = 65538, frag = 0\<rparr>, \<lparr>dirfrag_t.ino = 1, frag = 0\<rparr>],
            t_completed = [42], t_alloc_version = 4\<rparr>"
  by (simp add: EMetaBlob_replay_def replay_lump_def resolve_dir_def resolve_inode_def
      lump_of_def blob_root_stray_def blob_empty_def lump7_def toy_ops_def toy_consts_def
      toy_empty_def stray_whose_2)

lemma replay_journal_append:
  "replay_journal ops k (evs @ evs') s =
     (case replay_journal ops k evs s of
        Inl e \<Rightarrow> Inl e
      | Inr s1 \<Rightarrow> replay_journal ops k evs' s1)"
  by (induction evs arbitrary: s) (auto split: sum.splits)

lemma ESlaveUpdate_replay_final:
  assumes "ESlaveUpdate_replay ops k b opc r s = Inr s'" and "opc = OP_COMMIT \<or> opc = OP_ABORT"
  shows "uncommitted_slave_updates s' r = None"
  using assms
  by (auto simp: ESlaveUpdate_replay_def split: option.splits sum.splits)

lemma lump_need_None: "lump_need mds p = None \<longleftrightarrow> \<not> lump_unsatisfied mds p"
  by (auto simp: lump_need_def lump_unsatisfied_def split: option.splits)

lemma needs_Nil: "needs mds b = [] \<longleftrightarrow> \<not> list_ex (lump_unsatisfied mds) (lump_map b)"
proof -
  have "List.map_filter (lump_need mds) lps = [] \<longleftrightarrow> \<not> list_ex (lump_unsatisfied mds) lps" for lps
    by (induction lps) (auto simp: map_filter_simps lump_need_None [symmetric] split: option.splits)
  then show ?thesis by (simp add: needs_def)
qed

lemma expire_lumps_char:
  "\<exists>sc'. expire_lumps mds lps sc = Inr sc'
     \<and> waitfor_export sc' = waitfor_export sc @ export_roots (List.map_filter (lump_need mds) lps)
     \<and> waitfor_import sc' = waitfor_import sc @ import_roots (List.map_filter (lump_need mds) lps)
     \<and> commit sc' = fold commit_need (List.map_filter (lump_need mds) lps) (commit sc)"
proof (induction lps arbitrary: sc)
  case Nil
  then show ?case by (simp add: map_filter_simps)
next
  case (Cons p lps)
  obtain df lump where p: "p = (df, lump)" by (cases p)
  show ?case
  proof (cases "get_dirfrag (mdcache mds) df")
    case None
    with Cons.IH [of sc] show ?thesis
      by (simp add: p lump_need_def map_filter_simps)
  next
    case (Some dir)
    let ?d = "cdir (mdcache mds) dir"
    let ?ex = "get_subtree_root (mdcache mds) dir"
    show ?thesis
    proof (cases "fst (authority ?d) \<noteq> get_nodeid mds \<or> get_committed_version ?d \<ge> dirv lump")
      case True
      then have "lump_need mds (df, lump) = None"
        by (auto simp: lump_need_def Some)
      with Cons.IH [of sc] Some True show ?thesis
        by (auto simp: p map_filter_simps)
    next
      case False
      show ?thesis
      proof (cases "is_ambiguous_dir_auth ?d")
        case amb: True
        show ?thesis
        proof (cases "is_exporting (cdir (mdcache mds) ?ex)")
          case True
          with False amb Some have n: "lump_need mds (df, lump) = Some (Need_export ?ex)"
            by (simp add: lump_need_def)
          from Cons.IH [of "sc\<lparr>waitfor_export := waitfor_export sc @ [?ex]\<rparr>"] False amb Some True
          show ?thesis by (simp add: p n map_filter_simps)
        next
          case nex: False
          with False amb Some have n: "lump_need mds (df, lump) = Some (Need_import ?ex)"
            by (simp add: lump_need_def)
          from Cons.IH [of "sc\<lparr>waitfor_import := waitfor_import sc @ [?ex]\<rparr>"] False amb Some nex
          show ?thesis by (simp add: p n map_filter_simps)
        qed
      next
        case namb: False
        with False Some have n: "lump_need mds (df, lump) = Some (Need_commit dir (dirv lump))"
          by (simp add: lump_need_def)
        from Cons.IH [of "sc\<lparr>commit := commit_set dir (max (commit_get (commit sc) dir) (dirv lump)) (commit sc),
                            ncommit := ncommit sc + 1\<rparr>"] False namb Some
        show ?thesis by (simp add: p n map_filter_simps)
      qed
    qed
  qed
qed

lemma map_of_commit_set: "map_of (commit_set k v m) = (map_of m)(k \<mapsto> v)"
  by (induction k v m rule: commit_set.induct) (auto simp: fun_upd_twist)

lemma keys_commit_set: "fst ` set (commit_set k v m) = insert k (fst ` set m)"
  by (induction k v m rule: commit_set.induct) auto

lemma sorted_commit_set:
  "sorted_wrt (<) (map fst m) \<Longrightarrow> sorted_wrt (<) (map fst (commit_set k v m))"
proof (induction k v m rule: commit_set.induct)
  case (1 k v)
  then show ?case by simp
next
  case (2 k v k' v' m)
  then show ?case
    using keys_commit_set [of k v m] by (auto simp: less_imp_le)
qed

lemma fold_commit_need:
  "sorted_wrt (<) (map fst m) \<Longrightarrow>
   sorted_wrt (<) (map fst (fold commit_need ns m))
   \<and> (\<forall>d v. map_of (fold commit_need ns m) d = Some v \<longleftrightarrow>
         is_max ({v. map_of m d = Some v} \<union> {v. Need_commit d v \<in> set ns}) v)"
proof (induction ns arbitrary: m)
  case Nil
  then show ?case by (auto simp: is_max_def)
next
  case (Cons n ns)
  show ?case
  proof (cases n)
    case (Need_commit d0 v0)
    let ?m1 = "commit_set d0 (max (commit_get m d0) v0) m"
    from Cons.prems have s1: "sorted_wrt (<) (map fst ?m1)"
      by (rule sorted_commit_set)
    note ih = Cons.IH [OF s1]
    have "is_max ({v. map_of ?m1 d = Some v} \<union> {v. Need_commit d v \<in> set ns}) v
          \<longleftrightarrow> is_max ({v. map_of m d = Some v} \<union> {v. Need_commit d v \<in> set (n # ns)}) v" for d v
    proof (cases "d = d0")
      case False
      then show ?thesis by (simp add: map_of_commit_set Need_commit)
    next
      case True
      show ?thesis
      proof (cases "map_of m d0")
        case None
        then show ?thesis
          by (auto simp: True map_of_commit_set Need_commit commit_get_def is_max_def)
      next
        case (Some u)
        then show ?thesis
          by (auto simp: True map_of_commit_set Need_commit commit_get_def is_max_def max_def)
      qed
    qed
    with ih show ?thesis by (simp add: Need_commit)
  next
    case (Need_export r)
    with Cons.IH [OF Cons.prems] show ?thesis by simp
  next
    case (Need_import r)
    with Cons.IH [OF Cons.prems] show ?thesis by simp
  qed
qed

lemma register_eq:
  "register fs g =
     (map (\<lambda>(n, f). f (C_GatherSub (onfinish g) (Suc n))) (enumerate (num g) fs),
      g\<lparr>num := num g + length fs, pending := pending g + length fs\<rparr>)"
proof (induction fs arbitrary: g)
  case Nil
  then show ?case by simp
next
  case (Cons f fs)
  show ?case
    by (simp add: new_sub_def Cons.IH)
qed

lemma sub_not_target: "C_GatherSub c n \<noteq> c"
  by (induction c arbitrary: n) auto

lemma run_gather_done:
  "pending g = 0 \<Longrightarrow> fired g \<Longrightarrow> run_gather sts g = ([], g)"
proof (induction sts)
  case Nil
  then show ?case by simp
next
  case (Cons st sts)
  then show ?case
    by (cases st) (simp_all add: pump_def sub_finish_def)
qed

lemma run_gather_subs:
  "0 < num g \<Longrightarrow> \<not> fired g \<Longrightarrow> 0 < pending g \<Longrightarrow>
   fst (run_gather sts g) = (if pending g \<le> count_list sts SubFires then [onfinish g] else [])"
proof (induction sts arbitrary: g)
  case Nil
  then show ?case by simp
next
  case (Cons st sts)
  show ?case
  proof (cases st)
    case Pump
    with Cons.prems have "do_step st g = ([], g)"
      by (simp add: pump_def)
    with Cons.IH [OF Cons.prems] Pump show ?thesis
      by (simp split: prod.splits)
  next
    case SubFires
    show ?thesis
    proof (cases "pending g = 1")
      case True
      with Cons.prems have s: "do_step st g = ([onfinish g], g\<lparr>pending := 0, fired := True\<rparr>)"
        by (simp add: SubFires sub_finish_def)
      have "run_gather sts (g\<lparr>pending := 0, fired := True\<rparr>) = ([], g\<lparr>pending := 0, fired := True\<rparr>)"
        by (rule run_gather_done) simp_all
      with s True SubFires show ?thesis by simp
    next
      case False
      let ?g1 = "g\<lparr>pending := pending g - 1\<rparr>"
      from False Cons.prems have s: "do_step st g = ([], ?g1)"
        by (simp add: SubFires sub_finish_def)
      from False Cons.prems have "0 < num ?g1" "\<not> fired ?g1" "0 < pending ?g1"
        by simp_all
      from Cons.IH [OF this] s SubFires False Cons.prems show ?thesis
        by (auto split: prod.splits)
    qed
  qed
qed

lemma run_gather_empty:
  "num g = 0 \<Longrightarrow> pending g = 0 \<Longrightarrow> \<not> fired g \<Longrightarrow>
   fst (run_gather (Pump # sts) g) = [onfinish g]"
proof -
  assume a: "num g = 0" "pending g = 0" "\<not> fired g"
  then have p: "pump g = ([onfinish g], g\<lparr>fired := True\<rparr>)"
    by (simp add: pump_def)
  have "run_gather sts (g\<lparr>fired := True\<rparr>) = ([], g\<lparr>fired := True\<rparr>)"
    by (rule run_gather_done) (simp_all add: a)
  with p show ?thesis by simp
qed

lemma keys_fold_commit_need:
  "fst ` set (fold commit_need ns m) = fst ` set m \<union> {d. \<exists>v. Need_commit d v \<in> set ns}"
proof (induction ns arbitrary: m)
  case Nil
  then show ?case by simp
next
  case (Cons n ns)
  show ?case
    by (cases n) (auto simp: Cons.IH keys_commit_set)
qed

lemma no_needs:
  "fold commit_need ns [] = [] \<and> export_roots ns = [] \<and> import_roots ns = [] \<longleftrightarrow> ns = []"
proof (cases ns)
  case Nil
  then show ?thesis by simp
next
  case (Cons n ns')
  show ?thesis
  proof (cases n)
    case (Need_commit d v)
    have "d \<in> fst ` set (fold commit_need ns [])"
      unfolding keys_fold_commit_need using Cons Need_commit by auto
    then have "fold commit_need ns [] \<noteq> []" by auto
    with Cons show ?thesis by simp
  next
    case (Need_export r)
    with Cons show ?thesis by simp
  next
    case (Need_import r)
    with Cons show ?thesis by simp
  qed
qed

lemma list_ex_remove1:
  "x \<in> set xs \<Longrightarrow> list_ex P xs \<longleftrightarrow> P x \<or> list_ex P (remove1 x xs)"
  unfolding list_ex_iff
  by (metis in_set_remove1 notin_set_remove1)

lemma lump_unsatisfied_with_ambiguity:
  "lump_unsatisfied (with_ambiguity f mds) p = lump_unsatisfied mds p"
  by (simp add: lump_unsatisfied_def with_ambiguity_def split: option.splits)

lemma one_lump_in: "(\<lparr>dirfrag_t.ino = 1, frag = 0\<rparr>, lump7) \<in> set (lump_map blob_one_lump)"
  by (simp add: blob_one_lump_simps)

lemma satisfied_lump: "satisfied s (Dep_lump (fst p) (snd p)) \<longleftrightarrow> \<not> lump_unsatisfied s p"
  by (auto simp: lump_unsatisfied_def split: option.splits)

lemma blob_has_expired_deps:
  "EMetaBlob_has_expired s b = Inr (list_all (satisfied s) (blob_deps b))"
  by (simp add: EMetaBlob_has_expired_eq blob_deps_def list_all_iff list_ex_iff ball_Un
      satisfied_lump del: satisfied.simps(1))

lemma EOpen_has_expired_deps:
  "EOpen_has_expired s ins off = list_all (satisfied s) (map (\<lambda>i. Dep_open i off) ins)"
  by (auto simp: EOpen_has_expired_def list_all_iff list_ex_iff split: option.splits)

lemma has_expired_deps: "has_expired s ev = Inr (list_all (satisfied s) (deps ev))"
proof (cases ev)
  case (EOpen b ins off)
  then show ?thesis by (simp add: EOpen_has_expired_deps)
next
  case (EExport b bs bnds)
  then show ?thesis by (simp split: option.splits)
qed (auto simp: blob_has_expired_deps EClientMap_has_expired_def ESession_has_expired_def
      EImportMap_has_expired_def Let_def)

subsection \<open>The claims\<close>

text \<open>
  Claim C8. \<open>EImportMap::has_expired\<close> returns true if and only if a newer import map has
  been written (\<open>mdlog.last_import_map\<close> is greater than the event's end offset) or the
  log is capped.
\<close>

theorem EImportMap_has_expired_iff:
  "has_expired mds (EImportMap b imps end_off) =
     Inr (last_import_map (mdlog mds) > end_off \<or> is_capped (mdlog mds))"
  by (simp add: EImportMap_has_expired_def)

text \<open>
  Claim C5. \<open>EOpen::has_expired\<close> returns true if and only if no inode in \<open>inos\<close> is
  cached with outstanding client capabilities and a \<open>last_open_journaled\<close> offset that is
  both nonzero and not greater than the event's start offset. An inode whose
  \<open>last_open_journaled\<close> is 0 or greater than the start offset does not hold the event.
\<close>

theorem EOpen_has_expired_iff:
  "has_expired mds (EOpen b ins start_off) =
     Inr (\<not> (\<exists>p \<in> set ins. \<exists>i. get_inode (mdcache mds) p = Some i \<and>
               is_any_caps (cinode (mdcache mds) i) \<and>
               last_open_journaled (cinode (mdcache mds) i) \<noteq> 0 \<and>
               last_open_journaled (cinode (mdcache mds) i) \<le> start_off))"
  by (auto simp: EOpen_has_expired_def list_ex_iff split: option.splits)

theorem EOpen_has_expired_iff_witness:
  "has_expired (mds_with_inode \<lparr>is_any_caps = True, last_open_journaled = 300\<rparr>)
     (EOpen blob_empty [5] 400) = Inr False
   \<and> has_expired (mds_with_inode \<lparr>is_any_caps = True, last_open_journaled = 500\<rparr>)
     (EOpen blob_empty [5] 400) = Inr True
   \<and> has_expired (mds_with_inode \<lparr>is_any_caps = True, last_open_journaled = 0\<rparr>)
     (EOpen blob_empty [5] 400) = Inr True"
  using EOpen_has_expired_iff [of "mds_with_inode \<lparr>is_any_caps = True, last_open_journaled = 300\<rparr>"
          blob_empty "[5]" 400]
        EOpen_has_expired_iff [of "mds_with_inode \<lparr>is_any_caps = True, last_open_journaled = 500\<rparr>"
          blob_empty "[5]" 400]
        EOpen_has_expired_iff [of "mds_with_inode \<lparr>is_any_caps = True, last_open_journaled = 0\<rparr>"
          blob_empty "[5]" 400]
  by (simp add: mds_with_inode_def mds_idle_def)

text \<open>
  Claim C10. When \<open>has_expired\<close> is false (\<open>clientmap.committed < cmapv\<close>), the assertion
  inside \<open>EClientMap::expire\<close> and \<open>ESession::expire\<close> holds: whenever the branch of the
  commit in flight is taken (\<open>clientmap.committing \<ge> cmapv\<close>), \<open>committing > committed\<close>,
  the completion joins the commit's waiters, and the abort is not reached. In the other
  branch a new commit is logged.
\<close>

theorem clientmap_expire_assert_valid:
  assumes "has_expired mds ev = Inr False" and "ev = EClientMap v \<or> ev = ESession v"
  shows "get_committed (clientmap mds) < v
         \<and> expire mds ev c \<noteq> Inl Abort
         \<and> (get_committing (clientmap mds) \<ge> v \<longrightarrow>
              get_committing (clientmap mds) > get_committed (clientmap mds)
              \<and> expire mds ev c = Inr [ClientMap_add_commit_waiter c])
         \<and> (get_committing (clientmap mds) < v \<longrightarrow>
              expire mds ev c = Inr [MDS_log_clientmap c])"
  using assms
  by (auto simp: EClientMap_has_expired_def ESession_has_expired_def
      EClientMap_expire_def ESession_expire_def split: if_splits)

theorem clientmap_expire_assert_valid_witness:
  "has_expired (mds_clientmap 3 5) (EClientMap 4) = Inr False
   \<and> expire (mds_clientmap 3 5) (EClientMap 4) (Completion 0)
       = Inr [ClientMap_add_commit_waiter (Completion 0)]
   \<and> has_expired (mds_clientmap 3 3) (ESession 4) = Inr False
   \<and> expire (mds_clientmap 3 3) (ESession 4) (Completion 0)
       = Inr [MDS_log_clientmap (Completion 0)]"
proof -
  have a: "has_expired (mds_clientmap 3 5) (EClientMap 4) = Inr False"
    by (simp add: EClientMap_has_expired_def mds_clientmap_def mds_idle_def)
  have b: "has_expired (mds_clientmap 3 3) (ESession 4) = Inr False"
    by (simp add: ESession_has_expired_def mds_clientmap_def mds_idle_def)
  show ?thesis
    using a b
      clientmap_expire_assert_valid [OF a, of 4 "Completion 0"]
      clientmap_expire_assert_valid [OF b, of 4 "Completion 0"]
    by (simp add: mds_clientmap_def mds_idle_def)
qed

text \<open>
  Claim C1, as the code has it. The claim is that a blob with a lump whose dirfrag is
  cached and whose dir has ambiguous authority is not expired, whatever the dir's
  committed version. In \<open>EMetaBlob::has_expired\<close> the tests on the first node of the
  authority and on the committed version (both \<open>continue\<close>) come before the test on
  ambiguity. So, for a lump \<open>(df, l)\<close> of the blob whose dirfrag is cached and whose dir
  has ambiguous authority: when this node is the first of the dir's authority and the
  dir's committed version is below \<open>dirv l\<close>, \<open>has_expired\<close> is false; in every other
  case the lump does not hold the blob back, and \<open>has_expired\<close> is what it is of the
  blob without this lump. The ambiguity itself has no bearing on the result: with the
  flag \<open>is_ambiguous_dir_auth\<close> of every dir set to any other value, \<open>has_expired\<close>
  returns the same.
\<close>

theorem EMetaBlob_has_expired_ambiguous:
  assumes "(df, l) \<in> set (lump_map b)"
    and "get_dirfrag (mdcache mds) df = Some dir"
    and "is_ambiguous_dir_auth (cdir (mdcache mds) dir)"
  shows "EMetaBlob_has_expired mds b =
           (if fst (authority (cdir (mdcache mds) dir)) = get_nodeid mds
               \<and> get_committed_version (cdir (mdcache mds) dir) < dirv l
            then Inr False
            else EMetaBlob_has_expired mds (b\<lparr>lump_map := remove1 (df, l) (lump_map b)\<rparr>))
         \<and> EMetaBlob_has_expired (with_ambiguity f mds) b = EMetaBlob_has_expired mds b"
proof
  have u: "lump_unsatisfied mds (df, l) \<longleftrightarrow>
             fst (authority (cdir (mdcache mds) dir)) = get_nodeid mds
             \<and> get_committed_version (cdir (mdcache mds) dir) < dirv l"
    by (simp add: lump_unsatisfied_def assms(2))
  from list_ex_remove1 [OF assms(1), of "lump_unsatisfied mds"] u
  show "EMetaBlob_has_expired mds b =
           (if fst (authority (cdir (mdcache mds) dir)) = get_nodeid mds
               \<and> get_committed_version (cdir (mdcache mds) dir) < dirv l
            then Inr False
            else EMetaBlob_has_expired mds (b\<lparr>lump_map := remove1 (df, l) (lump_map b)\<rparr>))"
    by (simp add: EMetaBlob_has_expired_eq)
next
  have "list_ex (lump_unsatisfied (with_ambiguity f mds)) (lump_map b)
          = list_ex (lump_unsatisfied mds) (lump_map b)"
    by (simp add: list_ex_iff lump_unsatisfied_with_ambiguity)
  then show "EMetaBlob_has_expired (with_ambiguity f mds) b = EMetaBlob_has_expired mds b"
    by (simp add: EMetaBlob_has_expired_eq) (simp add: with_ambiguity_def)
qed

text \<open>
  Both cases at the blob with one lump (\<open>dirv = 7\<close>) on an exporting dir with ambiguous
  authority \<open>(0, 1)\<close>: committed version 5 gives false, committed version 9 gives what
  the blob without the lump gives, true; and clearing the flag changes nothing.
\<close>

theorem EMetaBlob_has_expired_ambiguous_witness:
  "EMetaBlob_has_expired (mds_with_dir dir_exporting_dirty) blob_one_lump = Inr False
   \<and> EMetaBlob_has_expired (mds_with_dir dir_exporting_committed) blob_one_lump = Inr True
   \<and> EMetaBlob_has_expired
        (with_ambiguity (\<lambda>p. False) (mds_with_dir dir_exporting_dirty)) blob_one_lump = Inr False"
proof -
  have d: "get_dirfrag (mdcache (mds_with_dir dir_exporting_dirty)) \<lparr>dirfrag_t.ino = 1, frag = 0\<rparr>
             = Some 100"
    "is_ambiguous_dir_auth (cdir (mdcache (mds_with_dir dir_exporting_dirty)) 100)"
    by (simp_all add: mds_with_dir_simps dir_exporting_dirty_def)
  have c: "get_dirfrag (mdcache (mds_with_dir dir_exporting_committed)) \<lparr>dirfrag_t.ino = 1, frag = 0\<rparr>
             = Some 100"
    "is_ambiguous_dir_auth (cdir (mdcache (mds_with_dir dir_exporting_committed)) 100)"
    by (simp_all add: mds_with_dir_simps dir_exporting_committed_def)
  have r: "EMetaBlob_has_expired (mds_with_dir dir_exporting_committed)
             (blob_one_lump\<lparr>lump_map := []\<rparr>) = Inr True"
    by (simp add: EMetaBlob_has_expired_def blob_one_lump_simps mds_with_dir_more_simps)
  from EMetaBlob_has_expired_ambiguous [OF one_lump_in d, of "\<lambda>p. False"]
       EMetaBlob_has_expired_ambiguous [OF one_lump_in c, of "\<lambda>p. False"] r
  show ?thesis
    by (simp add: mds_with_dir_simps blob_one_lump_simps
        dir_exporting_dirty_def dir_exporting_committed_def)
qed

text \<open>
  The claim as stated fails in two ways. The dir is cached, its authority is ambiguous
  and starts with this node, and its committed version 9 is not below \<open>dirv = 7\<close>; or
  the dir is cached, its authority is ambiguous and starts with node 1, and its committed
  version 5 is below \<open>dirv = 7\<close>. In both, \<open>has_expired\<close> is true.
\<close>

theorem EMetaBlob_has_expired_ambiguous_counterexample:
  "get_dirfrag (mdcache (mds_with_dir dir_exporting_committed)) \<lparr>dirfrag_t.ino = 1, frag = 0\<rparr>
     = Some 100
   \<and> is_ambiguous_dir_auth (cdir (mdcache (mds_with_dir dir_exporting_committed)) 100)
   \<and> fst (authority (cdir (mdcache (mds_with_dir dir_exporting_committed)) 100)) = 0
   \<and> get_nodeid (mds_with_dir dir_exporting_committed) = 0
   \<and> get_committed_version (cdir (mdcache (mds_with_dir dir_exporting_committed)) 100) = 9
   \<and> lump_map blob_one_lump = [(\<lparr>dirfrag_t.ino = 1, frag = 0\<rparr>, lump7)]
   \<and> dirv lump7 = 7
   \<and> EMetaBlob_has_expired (mds_with_dir dir_exporting_committed) blob_one_lump = Inr True
   \<and> get_dirfrag (mdcache (mds_with_dir dir_importing_remote)) \<lparr>dirfrag_t.ino = 1, frag = 0\<rparr>
     = Some 100
   \<and> is_ambiguous_dir_auth (cdir (mdcache (mds_with_dir dir_importing_remote)) 100)
   \<and> fst (authority (cdir (mdcache (mds_with_dir dir_importing_remote)) 100)) = 1
   \<and> get_nodeid (mds_with_dir dir_importing_remote) = 0
   \<and> get_committed_version (cdir (mdcache (mds_with_dir dir_importing_remote)) 100) = 5
   \<and> EMetaBlob_has_expired (mds_with_dir dir_importing_remote) blob_one_lump = Inr True"
  by (simp add: EMetaBlob_has_expired_def mds_with_dir_simps mds_with_dir_more_simps
      blob_one_lump_simps dir_exporting_committed_def dir_importing_remote_def)

text \<open>
  Claim C2. For every blob and every state of the MDS, \<open>EMetaBlob::expire(mds, c)\<close>
  arranges for \<open>c\<close> to be fired exactly once. It never aborts. It makes the calls \<open>cs\<close>
  and leaves the gather \<open>g\<close>, with target \<open>c\<close>, where \<open>cs\<close> holds one call per dependency
  that is not yet satisfied, in program order: per dir to commit, in order of dir, one
  commit to the greatest version its lumps ask for (or a wait for auth-pinnability); per
  lump of a dir with ambiguous authority, a wait for the end of the export or of the
  import; per uncommitted anchor operation, purge under way and completed client request
  of the blob, one waiter. Each call is given a sub of \<open>g\<close> of its own, the subs numbered
  from 1, and none is given \<open>c\<close> itself; all of them are pending in \<open>g\<close>, which has not
  fired. No call is made exactly when \<open>has_expired\<close> is true. After the creator's next
  pump and any steps that follow, \<open>c\<close> has fired once if every sub has fired, and not at
  all as long as a sub has not; and when no sub was registered, \<open>c\<close> fires in that very
  pump.
\<close>

theorem EMetaBlob_expire_fires_once:
  "\<exists>cm fs cs g.
     EMetaBlob_expire mds b c = Inr (cs, g)
     \<and> sorted_wrt (<) (map fst cm)
     \<and> (\<forall>dir v. (dir, v) \<in> set cm \<longleftrightarrow>
           Need_commit dir v \<in> set (needs mds b)
           \<and> (\<forall>v'. Need_commit dir v' \<in> set (needs mds b) \<longrightarrow> v' \<le> v))
     \<and> fs = map (\<lambda>(dir, v). if can_auth_pin (cdir (mdcache mds) dir)
                              then CDir_commit dir v
                              else CDir_add_waiter dir WAIT_AUTHPINNABLE) cm
            @ map Migrator_add_export_finish_waiter (export_roots (needs mds b))
            @ map (\<lambda>dir. CDir_add_waiter dir WAIT_IMPORTED) (import_roots (needs mds b))
            @ map AnchorClient_wait_for_ack
                (filter (\<lambda>a. \<not> anchorclient_has_committed mds a) (atids b))
            @ map (\<lambda>p. MDCache_wait_for_purge (inode_t.ino (fst p)) (snd p))
                (filter (\<lambda>p. is_purging (mdcache mds) (inode_t.ino (fst p)) (snd p))
                   (truncated_inodes b))
            @ map ClientMap_add_trim_waiter
                (filter (\<lambda>r. have_completed_request (clientmap mds) r) (client_reqs b))
     \<and> cs = map (\<lambda>(n, f). f (C_GatherSub c (Suc n))) (enumerate 0 fs)
     \<and> g = \<lparr>onfinish = c, num = length cs, pending = length cs, fired = False\<rparr>
     \<and> (\<forall>x \<in> set cs. call_context x \<noteq> Some c)
     \<and> EMetaBlob_has_expired mds b = Inr (cs = [])
     \<and> (\<forall>sts. length cs \<le> count_list sts SubFires \<longrightarrow>
           fst (run_gather (Pump # sts) g) = [c])
     \<and> (\<forall>sts. count_list sts SubFires < length cs \<longrightarrow>
           fst (run_gather (Pump # sts) g) = [])
     \<and> (cs = [] \<longrightarrow> fst (pump g) = [c])"
proof -
  let ?sc0 = "\<lparr>commit = [], waitfor_export = [], waitfor_import = [], ncommit = 0\<rparr>"
  from expire_lumps_char [of mds "lump_map b" ?sc0] obtain sc where
    sc: "expire_lumps mds (lump_map b) ?sc0 = Inr sc"
    and ex: "waitfor_export sc = export_roots (needs mds b)"
    and im: "waitfor_import sc = import_roots (needs mds b)"
    and cm: "commit sc = fold commit_need (needs mds b) []"
    by (auto simp: needs_def)
  define fs where "fs = expire_calls mds b sc"
  define cs where "cs = map (\<lambda>(n, f). f (C_GatherSub c (Suc n))) (enumerate 0 fs)"
  define g where "g = \<lparr>onfinish = c, num = length cs, pending = length cs, fired = False\<rparr>"
  have len: "length cs = length fs"
    by (simp add: cs_def)
  have e: "EMetaBlob_expire mds b c = Inr (cs, g)"
    by (simp add: EMetaBlob_expire_def sc register_eq C_Gather_new_def fs_def [symmetric]
        cs_def [symmetric] g_def len)
  from fold_commit_need [of "[]" "needs mds b"]
  have srt: "sorted_wrt (<) (map fst (commit sc))"
    and mx: "\<And>d v. map_of (commit sc) d = Some v \<longleftrightarrow>
               is_max {v. Need_commit d v \<in> set (needs mds b)} v"
    by (simp_all add: cm)
  from srt have "distinct (map fst (commit sc))"
    by (simp add: strict_sorted_iff)
  then have mem: "(dir, v) \<in> set (commit sc) \<longleftrightarrow>
           Need_commit dir v \<in> set (needs mds b)
           \<and> (\<forall>v'. Need_commit dir v' \<in> set (needs mds b) \<longrightarrow> v' \<le> v)" for dir v
    using mx [of dir v] by (simp add: is_max_def)
  have fs: "fs = map (\<lambda>(dir, v). if can_auth_pin (cdir (mdcache mds) dir)
                              then CDir_commit dir v
                              else CDir_add_waiter dir WAIT_AUTHPINNABLE) (commit sc)
            @ map Migrator_add_export_finish_waiter (export_roots (needs mds b))
            @ map (\<lambda>dir. CDir_add_waiter dir WAIT_IMPORTED) (import_roots (needs mds b))
            @ map AnchorClient_wait_for_ack
                (filter (\<lambda>a. \<not> anchorclient_has_committed mds a) (atids b))
            @ map (\<lambda>p. MDCache_wait_for_purge (inode_t.ino (fst p)) (snd p))
                (filter (\<lambda>p. is_purging (mdcache mds) (inode_t.ino (fst p)) (snd p))
                   (truncated_inodes b))
            @ map ClientMap_add_trim_waiter
                (filter (\<lambda>r. have_completed_request (clientmap mds) r) (client_reqs b))"
    by (simp add: fs_def expire_calls_def ex im)
  have tc: "\<forall>f \<in> set fs. takes_context f"
    unfolding fs by (auto simp: takes_context_def call_context_def)
  have ctx: "\<forall>x \<in> set cs. call_context x \<noteq> Some c"
  proof
    fix x assume "x \<in> set cs"
    then obtain n f where nf: "(n, f) \<in> set (enumerate 0 fs)" "x = f (C_GatherSub c (Suc n))"
      by (auto simp: cs_def)
    from nf(1) have "f \<in> set fs"
      by (auto simp: in_set_enumerate_eq)
    with nf(2) tc show "call_context x \<noteq> Some c"
      by (simp add: takes_context_def sub_not_target)
  qed
  have "fs = [] \<longleftrightarrow> needs mds b = []
      \<and> \<not> list_ex (\<lambda>p. \<not> anchorclient_has_committed mds p) (atids b)
      \<and> \<not> list_ex (\<lambda>p. is_purging (mdcache mds) (inode_t.ino (fst p)) (snd p)) (truncated_inodes b)
      \<and> \<not> list_ex (\<lambda>p. have_completed_request (clientmap mds) p) (client_reqs b)"
    using no_needs [of "needs mds b"]
    by (auto simp: fs cm list_ex_iff filter_empty_conv)
  moreover have "cs = [] \<longleftrightarrow> fs = []"
    using len by (metis length_0_conv)
  ultimately have he: "EMetaBlob_has_expired mds b = Inr (cs = [])"
    by (simp add: EMetaBlob_has_expired_eq needs_Nil)
  have all: "fst (run_gather (Pump # sts) g) = [c]" if "length cs \<le> count_list sts SubFires" for sts
  proof (cases "cs = []")
    case True
    then show ?thesis
      using run_gather_empty [of g sts] by (simp add: g_def)
  next
    case False
    then have "0 < num g" "\<not> fired g" "0 < pending g"
      by (simp_all add: g_def)
    from run_gather_subs [OF this, of "Pump # sts"] that show ?thesis
      by (simp add: g_def)
  qed
  have early: "fst (run_gather (Pump # sts) g) = []" if "count_list sts SubFires < length cs" for sts
  proof -
    from that have "0 < length cs" by (cases cs) simp_all
    then have "0 < num g" "\<not> fired g" "0 < pending g"
      by (simp_all add: g_def)
    from run_gather_subs [OF this, of "Pump # sts"] that show ?thesis
      by (simp add: g_def)
  qed
  have imm: "cs = [] \<longrightarrow> fst (pump g) = [c]"
    by (simp add: g_def pump_def)
  show ?thesis
    apply (rule exI [of _ "commit sc"])
    apply (rule exI [of _ fs])
    apply (rule exI [of _ cs])
    apply (rule exI [of _ g])
    using e srt mem fs cs_def g_def ctx he all early imm
    apply blast
    done
qed

text \<open>
  A dirty dir of this node: one commit with sub 1, and \<open>c\<close> fires when the sub does. The
  empty blob on the idle MDS: no call, and \<open>c\<close> fires in the first pump, once.
\<close>

theorem EMetaBlob_expire_fires_once_witness:
  "EMetaBlob_has_expired (mds_with_dir dir_dirty) blob_one_lump = Inr False
   \<and> EMetaBlob_expire (mds_with_dir dir_dirty) blob_one_lump (Completion 0)
       = Inr ([CDir_commit 100 7 (C_GatherSub (Completion 0) 1)],
              \<lparr>onfinish = Completion 0, num = 1, pending = 1, fired = False\<rparr>)
   \<and> fst (run_gather [Pump]
            \<lparr>onfinish = Completion 0, num = 1, pending = 1, fired = False\<rparr>) = []
   \<and> fst (run_gather [Pump, SubFires, Pump]
            \<lparr>onfinish = Completion 0, num = 1, pending = 1, fired = False\<rparr>) = [Completion 0]
   \<and> EMetaBlob_has_expired mds_idle blob_empty = Inr True
   \<and> EMetaBlob_expire mds_idle blob_empty (Completion 0)
       = Inr ([], \<lparr>onfinish = Completion 0, num = 0, pending = 0, fired = False\<rparr>)
   \<and> fst (pump \<lparr>onfinish = Completion 0, num = 0, pending = 0, fired = False\<rparr>)
       = [Completion 0]
   \<and> fst (run_gather [Pump, Pump]
            \<lparr>onfinish = Completion 0, num = 0, pending = 0, fired = False\<rparr>) = [Completion 0]"
proof -
  let ?g1 = "\<lparr>onfinish = Completion 0, num = 1, pending = 1, fired = False\<rparr>"
  let ?g0 = "\<lparr>onfinish = Completion 0, num = 0, pending = 0, fired = False\<rparr>"
  have e1: "EMetaBlob_expire (mds_with_dir dir_dirty) blob_one_lump (Completion 0)
       = Inr ([CDir_commit 100 7 (C_GatherSub (Completion 0) 1)], ?g1)"
    by (simp add: EMetaBlob_expire_def expire_calls_def mds_with_dir_simps
        mds_with_dir_more_simps blob_one_lump_simps dir_dirty_def commit_get_def
        C_Gather_new_def new_sub_def)
  have e0: "EMetaBlob_expire mds_idle blob_empty (Completion 0) = Inr ([], ?g0)"
    by (simp add: EMetaBlob_expire_def expire_calls_def blob_empty_def C_Gather_new_def)
  from EMetaBlob_expire_fires_once [of "mds_with_dir dir_dirty" blob_one_lump "Completion 0"]
  have h1: "EMetaBlob_has_expired (mds_with_dir dir_dirty) blob_one_lump = Inr False"
    and a1: "\<And>sts. 1 \<le> count_list sts SubFires \<Longrightarrow> fst (run_gather (Pump # sts) ?g1) = [Completion 0]"
    and b1: "\<And>sts. count_list sts SubFires < 1 \<Longrightarrow> fst (run_gather (Pump # sts) ?g1) = []"
    unfolding e1 by auto
  from EMetaBlob_expire_fires_once [of mds_idle blob_empty "Completion 0"]
  have h0: "EMetaBlob_has_expired mds_idle blob_empty = Inr True"
    and a0: "\<And>sts. fst (run_gather (Pump # sts) ?g0) = [Completion 0]"
    and p0: "fst (pump ?g0) = [Completion 0]"
    unfolding e0 by auto
  from a1 [of "[SubFires, Pump]"] b1 [of "[]"] a0 [of "[Pump]"] h1 h0 e1 e0 p0
  show ?thesis by simp
qed

text \<open>
  Claim C3. \<open>has_expired\<close> of \<open>EString\<close>, \<open>EAnchorClient\<close>, \<open>EPurgeFinish\<close> and
  \<open>EImportFinish\<close> always returns true, and invoking \<open>expire\<close> on any of them is a fatal
  error. The four \<open>has_expired\<close> agree with this, and so does \<open>expire\<close> of
  \<open>EAnchorClient\<close>, \<open>EPurgeFinish\<close> and \<open>EImportFinish\<close>, which is \<open>assert(0)\<close>.
  \<open>EString::expire\<close> departs from it: it prints and returns, in every state and for
  every completion. It makes no call, so the completion is neither fired nor handed on,
  and it does not abort.
\<close>

theorem EString_expire_returns:
  "has_expired mds (EString ev) = Inr True
   \<and> has_expired mds (EAnchorClient a) = Inr True
   \<and> has_expired mds (EPurgeFinish i n) = Inr True
   \<and> has_expired mds (EImportFinish bs s) = Inr True
   \<and> expire mds (EAnchorClient a) c = Inl Abort
   \<and> expire mds (EPurgeFinish i n) c = Inl Abort
   \<and> expire mds (EImportFinish bs s) c = Inl Abort
   \<and> expire mds (EString ev) c = Inr []
   \<and> expire mds (EString ev) c \<noteq> Inl Abort"
  by simp

text \<open>
  Claim C4, as the code has it. \<open>has_expired\<close> is a function of the MDS and the event
  that returns a truth value and nothing else; it never aborts, and it is true exactly
  when each dependency of the event is satisfied. Hence, once \<open>has_expired\<close> is true in
  a state \<open>s\<close>, it is true in another state \<open>s'\<close> exactly when every dependency of the
  event that is satisfied in \<open>s\<close> is satisfied in \<open>s'\<close>. Nothing is asked of the parts of
  the MDS that the event does not name.
\<close>

theorem has_expired_monotone:
  "has_expired s ev = Inr (list_all (satisfied s) (deps ev))
   \<and> (has_expired s ev = Inr True \<longrightarrow>
        (has_expired s' ev = Inr True
           \<longleftrightarrow> (\<forall>d \<in> set (deps ev). satisfied s d \<longrightarrow> satisfied s' d)))"
  by (auto simp: has_expired_deps list_all_iff)

text \<open>
  The blob with one lump (\<open>dirv = 7\<close>): once the dir has committed version 7 the event
  stays expired when the dir commits version 9; the event that has expired on a dir of
  node 1 is no longer expired once the dir is this node's again with committed version
  5, and there its lump is not satisfied.
\<close>

theorem has_expired_monotone_witness:
  "has_expired (mds_with_dir (dir_committed 7)) (EUpdate blob_one_lump) = Inr True
   \<and> has_expired (mds_with_dir (dir_committed 9)) (EUpdate blob_one_lump) = Inr True
   \<and> has_expired (mds_with_dir dir_exported) (EUpdate blob_one_lump) = Inr True
   \<and> has_expired (mds_with_dir dir_dirty) (EUpdate blob_one_lump) = Inr False
   \<and> deps (EUpdate blob_one_lump) = [Dep_lump \<lparr>dirfrag_t.ino = 1, frag = 0\<rparr> lump7]
   \<and> satisfied (mds_with_dir (dir_committed 7)) (Dep_lump \<lparr>dirfrag_t.ino = 1, frag = 0\<rparr> lump7)
   \<and> satisfied (mds_with_dir (dir_committed 9)) (Dep_lump \<lparr>dirfrag_t.ino = 1, frag = 0\<rparr> lump7)
   \<and> satisfied (mds_with_dir dir_exported) (Dep_lump \<lparr>dirfrag_t.ino = 1, frag = 0\<rparr> lump7)
   \<and> \<not> satisfied (mds_with_dir dir_dirty) (Dep_lump \<lparr>dirfrag_t.ino = 1, frag = 0\<rparr> lump7)"
proof -
  have d: "deps (EUpdate blob_one_lump) = [Dep_lump \<lparr>dirfrag_t.ino = 1, frag = 0\<rparr> lump7]"
    by (simp add: blob_deps_def blob_one_lump_simps)
  have s: "satisfied (mds_with_dir (dir_committed 7)) (Dep_lump \<lparr>dirfrag_t.ino = 1, frag = 0\<rparr> lump7)"
    "satisfied (mds_with_dir (dir_committed 9)) (Dep_lump \<lparr>dirfrag_t.ino = 1, frag = 0\<rparr> lump7)"
    "satisfied (mds_with_dir dir_exported) (Dep_lump \<lparr>dirfrag_t.ino = 1, frag = 0\<rparr> lump7)"
    "\<not> satisfied (mds_with_dir dir_dirty) (Dep_lump \<lparr>dirfrag_t.ino = 1, frag = 0\<rparr> lump7)"
    by (simp_all add: mds_with_dir_simps blob_one_lump_simps dir_committed_def
        dir_exported_def dir_dirty_def)
  from has_expired_monotone [of "mds_with_dir (dir_committed 7)" "EUpdate blob_one_lump"
         "mds_with_dir (dir_committed 9)"]
       has_expired_monotone [of "mds_with_dir dir_exported" "EUpdate blob_one_lump"
         "mds_with_dir dir_dirty"]
       has_expired_monotone [of "mds_with_dir dir_dirty" "EUpdate blob_one_lump"
         "mds_with_dir dir_dirty"]
  show ?thesis
    unfolding d using s by simp
qed

text \<open>
  \<open>has_expired\<close> is not monotone under every evolution of the authority: an update is
  expired while its dir belongs to node 1, and is not once the subtree has been
  imported back with committed version 5, below \<open>dirv = 7\<close>. The comment above
  \<open>EMetaBlob::has_expired\<close> describes this case.
\<close>

theorem has_expired_reimport_counterexample:
  "has_expired (mds_with_dir dir_exported) (EUpdate blob_one_lump) = Inr True
   \<and> has_expired (mds_with_dir dir_dirty) (EUpdate blob_one_lump) = Inr False"
  by (simp add: EMetaBlob_has_expired_def mds_with_dir_simps mds_with_dir_more_simps
      blob_one_lump_simps dir_exported_def dir_dirty_def)

text \<open>
  Claim C9. During \<open>EMetaBlob::replay\<close>, at a dirfrag of \<open>lump_order\<close> whose dirfrag and
  containing inode are both absent from the cache: if the inode number is the root's the
  root inode is created, else if it is a stray's the stray inode is created (for the node
  given by its offset from the stray base), and for any other inode number the replay
  aborts. The replay aborts exactly when it reaches, after the lumps before it, a dirfrag
  that is not cached, with an inode that is not cached and is neither the root nor a
  stray; so it does not abort when every dirfrag of \<open>lump_order\<close> belongs to the root or a
  stray.
\<close>

theorem EMetaBlob_replay_missing_inode:
  "(MDCache_get_dirfrag ops c lp = None \<and> MDCache_get_inode ops c (dirfrag_t.ino lp) = None \<longrightarrow>
      resolve_inode ops k lp c =
        (if dirfrag_t.ino lp = MDS_INO_ROOT k then Inr (MDCache_create_root_inode ops c)
         else if MDS_INO_IS_STRAY k (dirfrag_t.ino lp) then
           Inr (MDCache_create_stray_inode ops
                  (stray_whose (dirfrag_t.ino lp) (MDS_INO_STRAY_OFFSET k)) c)
         else Inl Abort)
      \<and> (replay_lump ops k b lp c = Inl Abort \<longleftrightarrow>
           dirfrag_t.ino lp \<noteq> MDS_INO_ROOT k \<and> \<not> MDS_INO_IS_STRAY k (dirfrag_t.ino lp)))
   \<and> (EMetaBlob_replay ops k b c = Inl Abort \<longleftrightarrow>
        (\<exists>pre lp suf c'. lump_order b = pre @ lp # suf
           \<and> replay_lumps ops k b pre c = Inr c'
           \<and> MDCache_get_dirfrag ops c' lp = None
           \<and> MDCache_get_inode ops c' (dirfrag_t.ino lp) = None
           \<and> dirfrag_t.ino lp \<noteq> MDS_INO_ROOT k
           \<and> \<not> MDS_INO_IS_STRAY k (dirfrag_t.ino lp)))
   \<and> ((\<forall>lp \<in> set (lump_order b).
          dirfrag_t.ino lp = MDS_INO_ROOT k \<or> MDS_INO_IS_STRAY k (dirfrag_t.ino lp))
        \<longrightarrow> (\<exists>c'. EMetaBlob_replay ops k b c = Inr c'))"
proof (intro conjI impI)
  assume "MDCache_get_dirfrag ops c lp = None \<and> MDCache_get_inode ops c (dirfrag_t.ino lp) = None"
  then show "resolve_inode ops k lp c =
        (if dirfrag_t.ino lp = MDS_INO_ROOT k then Inr (MDCache_create_root_inode ops c)
         else if MDS_INO_IS_STRAY k (dirfrag_t.ino lp) then
           Inr (MDCache_create_stray_inode ops
                  (stray_whose (dirfrag_t.ino lp) (MDS_INO_STRAY_OFFSET k)) c)
         else Inl Abort)"
    by (simp add: resolve_inode_def)
next
  assume "MDCache_get_dirfrag ops c lp = None \<and> MDCache_get_inode ops c (dirfrag_t.ino lp) = None"
  then show "replay_lump ops k b lp c = Inl Abort \<longleftrightarrow>
           dirfrag_t.ino lp \<noteq> MDS_INO_ROOT k \<and> \<not> MDS_INO_IS_STRAY k (dirfrag_t.ino lp)"
    by (simp add: replay_lump_abort_iff missing_inode_fatal_def)
next
  show "EMetaBlob_replay ops k b c = Inl Abort \<longleftrightarrow>
        (\<exists>pre lp suf c'. lump_order b = pre @ lp # suf
           \<and> replay_lumps ops k b pre c = Inr c'
           \<and> MDCache_get_dirfrag ops c' lp = None
           \<and> MDCache_get_inode ops c' (dirfrag_t.ino lp) = None
           \<and> dirfrag_t.ino lp \<noteq> MDS_INO_ROOT k
           \<and> \<not> MDS_INO_IS_STRAY k (dirfrag_t.ino lp))"
    unfolding EMetaBlob_replay_abort_iff replay_lumps_abort_iff missing_inode_fatal_def
    by simp
next
  assume "\<forall>lp \<in> set (lump_order b).
          dirfrag_t.ino lp = MDS_INO_ROOT k \<or> MDS_INO_IS_STRAY k (dirfrag_t.ino lp)"
  from replay_lumps_root_or_stray [OF this, of ops b c]
  show "\<exists>c'. EMetaBlob_replay ops k b c = Inr c'"
    by (auto simp: EMetaBlob_replay_def Let_def)
qed

theorem EMetaBlob_replay_missing_inode_witness:
  "EMetaBlob_replay toy_ops toy_consts blob_root_stray toy_empty
     = Inr \<lparr>t_inodes = [65538, 1],
            t_dirfrags = [\<lparr>dirfrag_t.ino = 65538, frag = 0\<rparr>, \<lparr>dirfrag_t.ino = 1, frag = 0\<rparr>],
            t_completed = [42], t_alloc_version = 4\<rparr>
   \<and> resolve_inode toy_ops toy_consts \<lparr>dirfrag_t.ino = 65538, frag = 0\<rparr> toy_empty
       = Inr (65538, toy_empty\<lparr>t_inodes := [65538]\<rparr>)
   \<and> EMetaBlob_replay toy_ops toy_consts blob_orphan toy_empty = Inl Abort"
proof -
  have m: "MDCache_get_dirfrag toy_ops toy_empty \<lparr>dirfrag_t.ino = 65538, frag = 0\<rparr> = None
     \<and> MDCache_get_inode toy_ops toy_empty (dirfrag_t.ino \<lparr>dirfrag_t.ino = 65538, frag = 0\<rparr>) = None"
    by (simp add: toy_ops_def toy_empty_def)
  have o: "\<exists>pre lp suf c'. lump_order blob_orphan = pre @ lp # suf
           \<and> replay_lumps toy_ops toy_consts blob_orphan pre toy_empty = Inr c'
           \<and> MDCache_get_dirfrag toy_ops c' lp = None
           \<and> MDCache_get_inode toy_ops c' (dirfrag_t.ino lp) = None
           \<and> dirfrag_t.ino lp \<noteq> MDS_INO_ROOT toy_consts
           \<and> \<not> MDS_INO_IS_STRAY toy_consts (dirfrag_t.ino lp)"
    by (intro exI [of _ "[]"] exI [of _ "\<lparr>dirfrag_t.ino = 5000, frag = 0\<rparr>"] exI [of _ toy_empty])
      (simp add: blob_orphan_def blob_empty_def toy_ops_def toy_consts_def toy_empty_def)
  from EMetaBlob_replay_missing_inode
         [of toy_ops toy_empty "\<lparr>dirfrag_t.ino = 65538, frag = 0\<rparr>" toy_consts blob_orphan]
       m o replay_root_stray
  show ?thesis
    by (simp add: toy_ops_def toy_consts_def toy_empty_def stray_whose_2)
qed

text \<open>
  Claim C7. \<open>EAlloc::replay\<close> changes nothing when the allocator's version is already at
  least \<open>table_version\<close>. Otherwise it returns only if the allocator's version is
  \<open>table_version - 1\<close>, the operation is applied (an ALLOC that yields exactly the recorded
  id, or a FREE that reclaims the recorded id) and the allocator's version afterwards is
  \<open>table_version\<close>; in every other case an assertion fails and it aborts.
\<close>

theorem EAlloc_replay_versions:
  "(IdAlloc_get_version ops c \<ge> tv \<longrightarrow> EAlloc_replay ops w i tv c = Inr c)
   \<and> (IdAlloc_get_version ops c < tv \<longrightarrow>
        (\<forall>c'. EAlloc_replay ops w i tv c = Inr c' \<longleftrightarrow>
           IdAlloc_get_version ops c = tv - 1 \<and> IdAlloc_get_version ops c' = tv \<and>
           (w = EALLOC_EV_ALLOC \<and> IdAlloc_alloc_id ops True c = (i, c')
            \<or> w = EALLOC_EV_FREE \<and> c' = IdAlloc_reclaim_id ops i True c))
        \<and> ((\<forall>c'. EAlloc_replay ops w i tv c \<noteq> Inr c') \<longrightarrow>
              EAlloc_replay ops w i tv c = Inl Abort))"
proof (intro conjI impI allI)
  assume "IdAlloc_get_version ops c \<ge> tv"
  then show "EAlloc_replay ops w i tv c = Inr c"
    by (simp add: EAlloc_replay_def)
next
  fix c'
  assume "IdAlloc_get_version ops c < tv"
  then show "EAlloc_replay ops w i tv c = Inr c' \<longleftrightarrow>
           IdAlloc_get_version ops c = tv - 1 \<and> IdAlloc_get_version ops c' = tv \<and>
           (w = EALLOC_EV_ALLOC \<and> IdAlloc_alloc_id ops True c = (i, c')
            \<or> w = EALLOC_EV_FREE \<and> c' = IdAlloc_reclaim_id ops i True c)"
    by (cases w; cases "IdAlloc_alloc_id ops True c")
      (auto simp: EAlloc_replay_def Let_def)
next
  assume "\<forall>c'. EAlloc_replay ops w i tv c \<noteq> Inr c'"
  then show "EAlloc_replay ops w i tv c = Inl Abort"
    by (simp add: not_Inr_iff)
qed

theorem EAlloc_replay_versions_witness:
  "EAlloc_replay toy_ops EALLOC_EV_ALLOC 104 5 toy_empty
     = Inr (toy_empty\<lparr>t_alloc_version := 5\<rparr>)
   \<and> EAlloc_replay toy_ops EALLOC_EV_ALLOC 104 5 (toy_empty\<lparr>t_alloc_version := 5\<rparr>)
     = Inr (toy_empty\<lparr>t_alloc_version := 5\<rparr>)
   \<and> EAlloc_replay toy_ops EALLOC_EV_FREE 104 5 toy_empty
     = Inr (toy_empty\<lparr>t_alloc_version := 5\<rparr>)
   \<and> EAlloc_replay toy_ops EALLOC_EV_ALLOC 7 5 toy_empty = Inl Abort"
proof -
  have v: "IdAlloc_get_version toy_ops toy_empty < 5"
    "IdAlloc_get_version toy_ops (toy_empty\<lparr>t_alloc_version := 5\<rparr>) \<ge> 5"
    by (simp_all add: toy_ops_def toy_empty_def)
  have a: "IdAlloc_alloc_id toy_ops True toy_empty = (104, toy_empty\<lparr>t_alloc_version := 5\<rparr>)"
    "IdAlloc_reclaim_id toy_ops 104 True toy_empty = toy_empty\<lparr>t_alloc_version := 5\<rparr>"
    "IdAlloc_get_version toy_ops toy_empty = 4"
    "IdAlloc_get_version toy_ops (toy_empty\<lparr>t_alloc_version := 5\<rparr>) = 5"
    by (simp_all add: toy_ops_def toy_empty_def)
  show ?thesis
    using v a
      EAlloc_replay_versions [of 5 toy_ops toy_empty EALLOC_EV_ALLOC 104]
      EAlloc_replay_versions [of 5 toy_ops "toy_empty\<lparr>t_alloc_version := 5\<rparr>" EALLOC_EV_ALLOC 104]
      EAlloc_replay_versions [of 5 toy_ops toy_empty EALLOC_EV_FREE 104]
      EAlloc_replay_versions [of 5 toy_ops toy_empty EALLOC_EV_ALLOC 7]
    by auto
qed

text \<open>
  Claim C6. For every request id \<open>r\<close>: replaying a PREPARE stores the blob under \<open>r\<close>
  without applying it (and aborts if a record for \<open>r\<close> exists). Replaying a COMMIT
  applies the stored blob and erases the record when a record for \<open>r\<close> exists, and does
  nothing otherwise. Replaying an ABORT erases the record and leaves the rest of the MDS
  as it is. So a PREPARE for \<open>r\<close> followed, after any further events, by a COMMIT
  or an ABORT for \<open>r\<close> leaves no entry for \<open>r\<close>, whenever the replay runs to its end.
\<close>

theorem ESlaveUpdate_replay_prepare_commit_abort:
  "(uncommitted_slave_updates s r = None \<longrightarrow>
      ESlaveUpdate_replay ops k b OP_PREPARE r s =
        Inr (s\<lparr>uncommitted_slave_updates := (uncommitted_slave_updates s)(r \<mapsto> b)\<rparr>))
   \<and> (uncommitted_slave_updates s r \<noteq> None \<longrightarrow>
        ESlaveUpdate_replay ops k b OP_PREPARE r s = Inl Abort)
   \<and> (\<forall>saved. uncommitted_slave_updates s r = Some saved \<longrightarrow>
        ESlaveUpdate_replay ops k b OP_COMMIT r s =
          (case EMetaBlob_replay ops k saved (live s) of
             Inl e \<Rightarrow> Inl e
           | Inr c \<Rightarrow> Inr \<lparr>live = c,
                           uncommitted_slave_updates = (uncommitted_slave_updates s)(r := None)\<rparr>))
   \<and> (uncommitted_slave_updates s r = None \<longrightarrow>
        ESlaveUpdate_replay ops k b OP_COMMIT r s = Inr s)
   \<and> ESlaveUpdate_replay ops k b OP_ABORT r s =
        Inr \<lparr>live = live s,
             uncommitted_slave_updates = (uncommitted_slave_updates s)(r := None)\<rparr>
   \<and> (\<forall>evs fin s'. (fin = OP_COMMIT \<or> fin = OP_ABORT) \<longrightarrow>
        replay_journal ops k (SlaveUpdate b OP_PREPARE r # evs @ [SlaveUpdate b' fin r]) s
          = Inr s' \<longrightarrow>
        uncommitted_slave_updates s' r = None)"
proof (intro conjI impI allI)
  fix evs fin s'
  assume fin: "fin = OP_COMMIT \<or> fin = OP_ABORT"
    and run: "replay_journal ops k (SlaveUpdate b OP_PREPARE r # evs @ [SlaveUpdate b' fin r]) s
               = Inr s'"
  from run have "replay_journal ops k ((SlaveUpdate b OP_PREPARE r # evs) @ [SlaveUpdate b' fin r]) s
               = Inr s'"
    by simp
  then obtain s1 where "ESlaveUpdate_replay ops k b' fin r s1 = Inr s'"
    unfolding replay_journal_append
    by (auto split: sum.splits)
  from ESlaveUpdate_replay_final [OF this fin]
  show "uncommitted_slave_updates s' r = None" .
next
  show "ESlaveUpdate_replay ops k b OP_ABORT r s =
        Inr \<lparr>live = live s,
             uncommitted_slave_updates = (uncommitted_slave_updates s)(r := None)\<rparr>"
  proof (cases "uncommitted_slave_updates s r")
    case None
    then have "(uncommitted_slave_updates s)(r := None) = uncommitted_slave_updates s"
      by (simp add: fun_upd_idem)
    with None show ?thesis
      by (simp add: ESlaveUpdate_replay_def)
  next
    case (Some saved)
    then show ?thesis
      by (simp add: ESlaveUpdate_replay_def)
  qed
qed (auto simp: ESlaveUpdate_replay_def split: sum.splits)

theorem ESlaveUpdate_replay_prepare_commit_abort_witness:
  "replay_journal toy_ops toy_consts
     [SlaveUpdate blob_root_stray OP_PREPARE 9, SlaveUpdate blob_empty OP_ABORT 9] toy_mds
     = Inr toy_mds
   \<and> replay_journal toy_ops toy_consts
       [SlaveUpdate blob_root_stray OP_PREPARE 9,
        OtherEvent (EAlloc_replay toy_ops EALLOC_EV_ALLOC 104 5),
        SlaveUpdate blob_empty OP_COMMIT 9] toy_mds
       = Inr \<lparr>live = \<lparr>t_inodes = [65538, 1],
                       t_dirfrags = [\<lparr>dirfrag_t.ino = 65538, frag = 0\<rparr>,
                                     \<lparr>dirfrag_t.ino = 1, frag = 0\<rparr>],
                       t_completed = [42], t_alloc_version = 5\<rparr>,
              uncommitted_slave_updates = Map.empty\<rparr>
   \<and> ESlaveUpdate_replay toy_ops toy_consts blob_empty OP_COMMIT 9 toy_mds = Inr toy_mds
   \<and> ESlaveUpdate_replay toy_ops toy_consts blob_empty OP_PREPARE 9
       (toy_mds\<lparr>uncommitted_slave_updates := [9 \<mapsto> blob_root_stray]\<rparr>) = Inl Abort"
proof -
  let ?p = "toy_mds\<lparr>uncommitted_slave_updates :=
                    (uncommitted_slave_updates toy_mds)(9 \<mapsto> blob_root_stray)\<rparr>"
  let ?q = "?p\<lparr>live := toy_empty\<lparr>t_alloc_version := 5\<rparr>\<rparr>"
  let ?end = "\<lparr>t_inodes = [65538, 1],
               t_dirfrags = [\<lparr>dirfrag_t.ino = 65538, frag = 0\<rparr>,
                             \<lparr>dirfrag_t.ino = 1, frag = 0\<rparr>],
               t_completed = [42], t_alloc_version = 5\<rparr>"
  have e: "uncommitted_slave_updates toy_mds 9 = None"
    by (simp add: toy_mds_def)
  have prep: "ESlaveUpdate_replay toy_ops toy_consts blob_root_stray OP_PREPARE 9 toy_mds = Inr ?p"
    using ESlaveUpdate_replay_prepare_commit_abort
            [of toy_mds 9 toy_ops toy_consts blob_root_stray blob_empty] e
    by blast
  have abort: "ESlaveUpdate_replay toy_ops toy_consts blob_empty OP_ABORT 9 ?p = Inr toy_mds"
  proof -
    have "ESlaveUpdate_replay toy_ops toy_consts blob_empty OP_ABORT 9 ?p =
            Inr \<lparr>live = live ?p,
                 uncommitted_slave_updates = (uncommitted_slave_updates ?p)(9 := None)\<rparr>"
      using ESlaveUpdate_replay_prepare_commit_abort
              [of ?p 9 toy_ops toy_consts blob_empty blob_empty]
      by blast
    also have "\<lparr>live = live ?p,
                 uncommitted_slave_updates = (uncommitted_slave_updates ?p)(9 := None)\<rparr> = toy_mds"
      by (simp add: toy_mds_def)
    finally show ?thesis .
  qed
  have alloc: "replay_entry toy_ops toy_consts
                 (OtherEvent (EAlloc_replay toy_ops EALLOC_EV_ALLOC 104 5)) ?p = Inr ?q"
    by (simp add: EAlloc_replay_def toy_ops_def toy_empty_def toy_mds_def)
  have blob: "EMetaBlob_replay toy_ops toy_consts blob_root_stray (live ?q) = Inr ?end"
    by (simp add: EMetaBlob_replay_def replay_lump_def resolve_dir_def resolve_inode_def
        lump_of_def blob_root_stray_def blob_empty_def lump7_def toy_ops_def toy_consts_def
        toy_empty_def stray_whose_2)
  have commit: "ESlaveUpdate_replay toy_ops toy_consts blob_empty OP_COMMIT 9 ?q
                  = Inr \<lparr>live = ?end, uncommitted_slave_updates = Map.empty\<rparr>"
  proof -
    have s: "uncommitted_slave_updates ?q 9 = Some blob_root_stray"
      by simp
    have "ESlaveUpdate_replay toy_ops toy_consts blob_empty OP_COMMIT 9 ?q =
            (case EMetaBlob_replay toy_ops toy_consts blob_root_stray (live ?q) of
               Inl e \<Rightarrow> Inl e
             | Inr c \<Rightarrow> Inr \<lparr>live = c,
                   uncommitted_slave_updates = (uncommitted_slave_updates ?q)(9 := None)\<rparr>)"
      using ESlaveUpdate_replay_prepare_commit_abort
              [of ?q 9 toy_ops toy_consts blob_empty blob_empty] s
      by blast
    also have "\<dots> = Inr \<lparr>live = ?end,
                   uncommitted_slave_updates = (uncommitted_slave_updates ?q)(9 := None)\<rparr>"
      unfolding blob by simp
    also have "(uncommitted_slave_updates ?q)(9 := None) = Map.empty"
      by (simp add: toy_mds_def)
    finally show ?thesis .
  qed
  have idle: "ESlaveUpdate_replay toy_ops toy_consts blob_empty OP_COMMIT 9 toy_mds = Inr toy_mds"
    using ESlaveUpdate_replay_prepare_commit_abort
            [of toy_mds 9 toy_ops toy_consts blob_empty blob_empty] e
    by blast
  have twice: "ESlaveUpdate_replay toy_ops toy_consts blob_empty OP_PREPARE 9
       (toy_mds\<lparr>uncommitted_slave_updates := [9 \<mapsto> blob_root_stray]\<rparr>) = Inl Abort"
    using ESlaveUpdate_replay_prepare_commit_abort
            [of "toy_mds\<lparr>uncommitted_slave_updates := [9 \<mapsto> blob_root_stray]\<rparr>" 9
                toy_ops toy_consts blob_empty blob_empty]
    by simp
  have j1: "replay_journal toy_ops toy_consts
     [SlaveUpdate blob_root_stray OP_PREPARE 9, SlaveUpdate blob_empty OP_ABORT 9] toy_mds
     = Inr toy_mds"
    by (simp add: prep abort)
  have j2: "replay_journal toy_ops toy_consts
       [SlaveUpdate blob_root_stray OP_PREPARE 9,
        OtherEvent (EAlloc_replay toy_ops EALLOC_EV_ALLOC 104 5),
        SlaveUpdate blob_empty OP_COMMIT 9] toy_mds
       = Inr \<lparr>live = ?end, uncommitted_slave_updates = Map.empty\<rparr>"
    by (simp add: prep alloc commit del: replay_entry.simps(2))
  from j1 j2 idle twice show ?thesis
    by blast
qed

end
